theory Spec2Isabelle
  imports Complex_Main
begin

section \<open>Conventions\<close>

text \<open>
  The engine computes on IEEE doubles; here a price, a score or an average is a
  \<^typ>\<open>real\<close>, so rounding is idealised away and NaN and infinities do not exist.
  Python's \<^verbatim>\<open>None\<close> padding of an indicator list is \<^term>\<open>None\<close> of an option.
  An exception is \<^term>\<open>Inl\<close> of the sum type \<open>error + 'a\<close>; what an instance holds after
  one of its methods has raised is not modelled.
  Periods are natural numbers. For a period of zero numpy produces NaN in
  \<^verbatim>\<open>rsi\<close> and \<^verbatim>\<open>_ema\<close>, which the real-valued model cannot represent; the
  results about those two functions are stated for positive periods.
\<close>

datatype error =
    ValueError
  | IndexError
  | NameError
  | KeyError
  | TypeError
  | ValidationError
  | DateOutOfRange

section \<open>Indicator library (app/indicators/__init__.py)\<close>

definition mean :: "real list \<Rightarrow> real" where
  "mean xs = sum_list xs / real (length xs)"

text \<open>
  \<^verbatim>\<open>np.convolve(a, v, mode='valid')\<close> for \<open>length v \<le> length a\<close>, with numpy's check
  that neither argument is empty.
\<close>

definition convolve_valid :: "real list \<Rightarrow> real list \<Rightarrow> error + real list" where
  "convolve_valid a v =
     (if a = [] \<or> v = [] then Inl ValueError
      else Inr (map (\<lambda>k. sum_list (map (\<lambda>j. a ! (k + j) * v ! (length v - 1 - j)) [0..<length v]))
                    [0..<length a - length v + 1]))"

definition sma :: "real list \<Rightarrow> nat \<Rightarrow> error + real option list" where
  "sma prices period =
     (if length prices < period then Inr (replicate (length prices) None)
      else case convolve_valid prices (replicate period (1 / real period)) of
             Inl e \<Rightarrow> Inl e
           | Inr sma_values \<Rightarrow> Inr (replicate (period - 1) None @ map Some sma_values))"

text \<open>\<^verbatim>\<open>np.diff\<close>, and the two \<^verbatim>\<open>np.where\<close> selections of \<^verbatim>\<open>rsi\<close>.\<close>

definition diff :: "real list \<Rightarrow> real list" where
  "diff xs = map (\<lambda>i. xs ! Suc i - xs ! i) [0..<length xs - 1]"

definition gains_of :: "real list \<Rightarrow> real list" where
  "gains_of deltas = map (\<lambda>d. if d > 0 then d else 0) deltas"

definition losses_of :: "real list \<Rightarrow> real list" where
  "losses_of deltas = map (\<lambda>d. if d < 0 then - d else 0) deltas"

text \<open>
  Wilder smoothing: \<open>wilder xs period k\<close> is the array entry \<^verbatim>\<open>avg[period + k]\<close>, seeded at
  \<^verbatim>\<open>avg[period] = mean(xs[:period])\<close> and continued by
  \<^verbatim>\<open>avg[i] = (avg[i-1] * (period - 1) + xs[i-1]) / period\<close>.
\<close>

primrec wilder :: "real list \<Rightarrow> nat \<Rightarrow> nat \<Rightarrow> real" where
  "wilder xs period 0 = mean (take period xs)"
| "wilder xs period (Suc k) =
     (wilder xs period k * real (period - 1) + xs ! (period + k)) / real period"

definition avg_array :: "real list \<Rightarrow> nat \<Rightarrow> nat \<Rightarrow> real list" where
  "avg_array xs period n =
     map (\<lambda>i. if i < period then 0 else wilder xs period (i - period)) [0..<n]"

definition rs_of :: "real \<Rightarrow> real \<Rightarrow> real" where
  "rs_of avg_gain avg_loss = (if avg_loss \<noteq> 0 then avg_gain / avg_loss else 0)"

definition rsi_value :: "real \<Rightarrow> real \<Rightarrow> real" where
  "rsi_value avg_gain avg_loss = 100 - 100 / (1 + rs_of avg_gain avg_loss)"

definition rsi :: "real list \<Rightarrow> nat \<Rightarrow> real option list" where
  "rsi prices period =
     (if length prices < period + 1 then replicate (length prices) None
      else
        let deltas = diff prices;
            avg_gain = avg_array (gains_of deltas) period (length prices);
            avg_loss = avg_array (losses_of deltas) period (length prices);
            rsi_values = map2 rsi_value avg_gain avg_loss
        in replicate period None @ map Some (drop period rsi_values))"

text \<open>
  \<^verbatim>\<open>_ema\<close>: \<open>ema_from data period k\<close> is the array entry \<^verbatim>\<open>ema[period - 1 + k]\<close>. Writing
  the seed \<^verbatim>\<open>ema[period - 1]\<close> raises IndexError when the array is shorter than the period.
\<close>

primrec ema_from :: "real list \<Rightarrow> nat \<Rightarrow> nat \<Rightarrow> real" where
  "ema_from data period 0 = mean (take period data)"
| "ema_from data period (Suc k) =
     (2 / (real period + 1)) * data ! (period + k)
       + (1 - 2 / (real period + 1)) * ema_from data period k"

definition ema :: "real list \<Rightarrow> nat \<Rightarrow> error + real list" where
  "ema data period =
     (if length data < period then Inl IndexError
      else Inr (map (\<lambda>i. if i < period - 1 then 0 else ema_from data period (i - (period - 1)))
                    [0..<length data]))"

definition macd ::
  "real list \<Rightarrow> nat \<Rightarrow> nat \<Rightarrow> nat \<Rightarrow>
     error + (real option list \<times> real option list \<times> real option list)" where
  "macd prices fast_period slow_period signal_period =
     (if length prices < slow_period
      then (let none_list = replicate (length prices) None in Inr (none_list, none_list, none_list))
      else case ema prices fast_period of
        Inl e \<Rightarrow> Inl e
      | Inr ema_fast \<Rightarrow>
       (case ema prices slow_period of
          Inl e \<Rightarrow> Inl e
        | Inr ema_slow \<Rightarrow>
           (let macd_line = map2 (-) ema_fast ema_slow in
            case ema macd_line signal_period of
              Inl e \<Rightarrow> Inl e
            | Inr signal_line \<Rightarrow>
               (let histogram = map2 (-) macd_line signal_line;
                    min_period = slow_period + signal_period - 1
                in Inr (replicate (slow_period - 1) None @ map Some (drop (slow_period - 1) macd_line),
                        replicate min_period None @ map Some (drop min_period signal_line),
                        replicate min_period None @ map Some (drop min_period histogram))))))"

section \<open>Kill-zone detector (app/engine/kill_zones.py)\<close>

datatype KillZoneType = LONDON_KILL_ZONE | NY_KILL_ZONE | LONDON_CLOSE | ASIAN_SESSION | OFF_HOURS

datatype SessionType = PRE_MARKET | MARKET_OPEN | MARKET_HOURS | MARKET_CLOSE | AFTER_HOURS

record KillZoneInfo =
  zone_type :: KillZoneType
  is_active :: bool
  time_until_next :: "int option"
  time_remaining :: "int option"
  session :: SessionType
  optimal_for_entries :: bool
  volatility_expected :: string
  kz_rationale :: string

text \<open>
  A \<^verbatim>\<open>datetime.time\<close> without microseconds is the number of seconds since midnight;
  \<open>time h m\<close> is \<^verbatim>\<open>time(h, m)\<close>.
\<close>

type_synonym time = nat

definition time :: "nat \<Rightarrow> nat \<Rightarrow> time" where
  "time h m = h * 3600 + m * 60"

text \<open>The class table \<^verbatim>\<open>KILL_ZONES\<close>, in the order the dictionary is written and iterated.\<close>

definition KILL_ZONES :: "(KillZoneType \<times> (time \<times> time)) list" where
  "KILL_ZONES =
     [(LONDON_KILL_ZONE, (time 3 0, time 5 0)),
      (NY_KILL_ZONE, (time 9 30, time 11 30)),
      (LONDON_CLOSE, (time 11 0, time 12 0)),
      (ASIAN_SESSION, (time 20 0, time 0 0))]"

definition is_time_in_window :: "time \<Rightarrow> time \<Rightarrow> time \<Rightarrow> bool" where
  "is_time_in_window current start end =
     (if start < end then start \<le> current \<and> current \<le> end
      else current \<ge> start \<or> current \<le> end)"

definition get_session_type :: "time \<Rightarrow> SessionType" where
  "get_session_type current_time =
     (if current_time < time 9 30 then PRE_MARKET
      else if time 9 30 \<le> current_time \<and> current_time < time 10 0 then MARKET_OPEN
      else if time 10 0 \<le> current_time \<and> current_time < time 16 0 then MARKET_HOURS
      else if time 16 0 \<le> current_time \<and> current_time < time 20 0 then MARKET_CLOSE
      else AFTER_HOURS)"

text \<open>
  Python's \<^verbatim>\<open>int(x)\<close> on a float truncates towards zero. \<open>minutes_between a b\<close> is
  \<^verbatim>\<open>int((b - a).total_seconds() / 60)\<close> for two instants given in seconds.
\<close>

definition py_int :: "real \<Rightarrow> int" where
  "py_int x = (if x \<ge> 0 then \<lfloor>x\<rfloor> else \<lceil>x\<rceil>)"

definition minutes_between :: "int \<Rightarrow> int \<Rightarrow> int" where
  "minutes_between a b = py_int (real_of_int (b - a) / 60)"

text \<open>Python's \<^verbatim>\<open>min(xs, key=k)\<close> on a non-empty list: the first element of least key.\<close>

definition min_by :: "('a \<Rightarrow> int) \<Rightarrow> 'a \<Rightarrow> 'a list \<Rightarrow> 'a" where
  "min_by k x xs = foldl (\<lambda>best y. if k y < k best then y else best) x xs"

definition get_next_kill_zone :: "time \<Rightarrow> error + (KillZoneType \<times> int)" where
  "get_next_kill_zone current_time =
     (let candidates =
            map (\<lambda>(zone, (start, end)).
                   (zone, minutes_between (int current_time)
                            (if start \<le> current_time then int start + 86400 else int start)))
                KILL_ZONES
      in case candidates of
           [] \<Rightarrow> Inl ValueError
         | c # cs \<Rightarrow> Inr (min_by snd c cs))"

definition zone_profile :: "KillZoneType \<Rightarrow> bool \<times> string \<times> string" where
  "zone_profile zone =
     (if zone = LONDON_KILL_ZONE
        then (True, ''high'', ''London market open - highest institutional activity'')
      else if zone = NY_KILL_ZONE
        then (True, ''high'', ''NYSE open - peak market volatility and volume'')
      else if zone = LONDON_CLOSE
        then (True, ''medium'', ''London session close - potential reversals'')
      else if zone = ASIAN_SESSION
        then (False, ''low'', ''Asian session - lower volume, consolidation likely'')
      else (False, ''low'', []))"

definition off_hours_rationale :: "time \<Rightarrow> string" where
  "off_hours_rationale current_time =
     (if current_time < time 3 0
        then ''Pre-London - waiting for institutional activity''
      else if time 5 0 \<le> current_time \<and> current_time < time 9 30
        then ''Between London and NY - lower volatility period''
      else if time 12 0 \<le> current_time \<and> current_time < time 20 0
        then ''Post-lunch session - reduced institutional activity''
      else ''Off-hours - limited institutional participation'')"

text \<open>
  \<^verbatim>\<open>_create_kill_zone_info\<close>. \<open>zone_profile\<close> is its chain of assignments to
  \<^verbatim>\<open>optimal\<close>, \<^verbatim>\<open>volatility\<close> and \<^verbatim>\<open>rationale\<close> in the active branch, whose initial
  values are \<^verbatim>\<open>False\<close>, \<^verbatim>\<open>'low'\<close> and the empty string; \<open>off_hours_rationale\<close> is the chain of
  the other branch.
\<close>

definition create_kill_zone_info :: "KillZoneType \<Rightarrow> bool \<Rightarrow> time \<Rightarrow> error + KillZoneInfo" where
  "create_kill_zone_info zone is_act current_time =
     (let sess = get_session_type current_time in
      if is_act then
        (case map_of KILL_ZONES zone of
           None \<Rightarrow> Inl KeyError
         | Some (start, end) \<Rightarrow>
            (let end_dt = (if end < start then int end + 86400 else int end);
                 remaining = minutes_between (int current_time) end_dt
             in Inr \<lparr>zone_type = zone, is_active = is_act, time_until_next = None,
                     time_remaining = Some remaining, session = sess,
                     optimal_for_entries = fst (zone_profile zone),
                     volatility_expected = fst (snd (zone_profile zone)),
                     kz_rationale = snd (snd (zone_profile zone))\<rparr>))
      else
        (case get_next_kill_zone current_time of
           Inl e \<Rightarrow> Inl e
         | Inr (next_zone, minutes_until) \<Rightarrow>
             Inr \<lparr>zone_type = zone, is_active = is_act, time_until_next = Some minutes_until,
                  time_remaining = None, session = sess,
                  optimal_for_entries = False, volatility_expected = ''low'',
                  kz_rationale = off_hours_rationale current_time\<rparr>))"

text \<open>
  \<^verbatim>\<open>datetime.fromtimestamp(timestamp, tz=utc).astimezone(UTC-5).time()\<close>. A \<^verbatim>\<open>datetime\<close>
  covers the years 1 to 9999, so the conversion raises for a timestamp whose Eastern wall
  time lies outside them; inside, the time of day is the remainder modulo one day.
\<close>

definition est_time :: "int \<Rightarrow> error + time" where
  "est_time timestamp =
     (if timestamp - 18000 < - 62135596800 \<or> 253402300799 < timestamp then Inl DateOutOfRange
      else Inr (nat ((timestamp - 18000) mod 86400)))"

definition get_current_kill_zone :: "int \<Rightarrow> error + KillZoneInfo" where
  "get_current_kill_zone timestamp =
     (case est_time timestamp of
        Inl e \<Rightarrow> Inl e
      | Inr current_time \<Rightarrow>
         (case find (\<lambda>(zone, (start, end)). is_time_in_window current_time start end) KILL_ZONES of
            Some (zone, w) \<Rightarrow> create_kill_zone_info zone True current_time
          | None \<Rightarrow> create_kill_zone_info OFF_HOURS False current_time))"

text \<open>The reason text that \<^verbatim>\<open>should_trade_signal\<close> returns, one constructor per message.\<close>

datatype TradeReason =
    HighStrengthInZone KillZoneType
  | ModerateInOptimalZone
  | AvoidAsianSession
  | OffHoursException
  | WaitForKillZone "int option"
  | TooLowInKillZone
  | MeetsCriteria

definition should_trade_signal :: "int \<Rightarrow> real \<Rightarrow> error + (bool \<times> TradeReason)" where
  "should_trade_signal signal_timestamp signal_strength =
     (case get_current_kill_zone signal_timestamp of
        Inl e \<Rightarrow> Inl e
      | Inr info \<Rightarrow>
         Inr (if is_active info \<and> signal_strength \<ge> 70
                then (True, HighStrengthInZone (zone_type info))
              else if is_active info \<and> optimal_for_entries info \<and> signal_strength \<ge> 50
                then (True, ModerateInOptimalZone)
              else if zone_type info = ASIAN_SESSION
                then (False, AvoidAsianSession)
              else if zone_type info = OFF_HOURS
                then (if signal_strength \<ge> 80 then (True, OffHoursException)
                      else (False, WaitForKillZone (time_until_next info)))
              else if is_active info \<and> signal_strength < 50
                then (False, TooLowInKillZone)
              else (True, MeetsCriteria)))"

section \<open>Candles (app/models/__init__.py)\<close>

text \<open>
  The fields \<^verbatim>\<open>t, o, h, l, c, v\<close> of \<^verbatim>\<open>Candle\<close>. Where two classes of the source share a
  field name, the records below prefix it with the class.
\<close>

record Candle =
  candle_t :: int
  candle_o :: real
  candle_h :: real
  candle_l :: real
  candle_c :: real
  candle_v :: real

text \<open>\<^verbatim>\<open>xs[-n:]\<close> and \<^verbatim>\<open>df.tail(n)\<close> for \<open>n > 0\<close>: the last \<open>n\<close> elements, or all of them.\<close>

definition tail :: "nat \<Rightarrow> 'a list \<Rightarrow> 'a list" where
  "tail n xs = drop (length xs - n) xs"

text \<open>A loop whose body may raise: the first exception ends it.\<close>

fun fold_err :: "('a \<Rightarrow> 's \<Rightarrow> error + 's) \<Rightarrow> 'a list \<Rightarrow> 's \<Rightarrow> error + 's" where
  "fold_err f [] s = Inr s"
| "fold_err f (x # xs) s = (case f x s of Inl e \<Rightarrow> Inl e | Inr s' \<Rightarrow> fold_err f xs s')"

section \<open>ICT detector (app/engine/ict_strategies.py)\<close>

datatype ICTSignal =
    BULLISH_BREAKER | BEARISH_BREAKER | FVG_BULLISH | FVG_BEARISH
  | MM_BUY_MODEL | MM_SELL_MODEL | BOS_BULLISH | BOS_BEARISH
  | MSS_BULLISH | MSS_BEARISH | ICT_NEUTRAL

text \<open>The strings \<^verbatim>\<open>'bullish'\<close> and \<^verbatim>\<open>'bearish'\<close> of a block type or a direction.\<close>

datatype Direction = Bullish | Bearish

record OrderBlock =
  ob_high :: real
  ob_low :: real
  ob_timestamp :: int
  ob_type :: Direction
  confirmed :: bool
  broken :: bool
  breaker_confirmed :: bool

record FairValueGap =
  fvg_high :: real
  fvg_low :: real
  start_timestamp :: int
  end_timestamp :: int
  fvg_direction :: Direction
  filled :: bool
  fill_price :: "real option"

record MarketStructure =
  trend :: string
  last_swing_high :: real
  last_swing_low :: real
  swing_high_timestamp :: int
  swing_low_timestamp :: int
  bos_confirmed :: bool
  bos_direction :: "Direction option"
  mss_confirmed :: bool
  mss_direction :: "Direction option"

text \<open>
  \<^verbatim>\<open>ICTSignalResult\<close> without its \<^verbatim>\<open>rationale\<close>, a list of fixed sentences that no
  computation reads.
\<close>

record ICTSignalResult =
  signal_type :: ICTSignal
  strength :: real
  confidence :: real
  price :: real
  entry_zone :: "real \<times> real"
  stop_loss :: real
  take_profit :: real
  market_phase :: "string option"
  liquidity_pool :: "real option"

text \<open>The instance attributes of \<^verbatim>\<open>ICTStrategies\<close>.\<close>

record ICTStrategies =
  order_blocks :: "OrderBlock list"
  fair_value_gaps :: "FairValueGap list"
  market_structure :: MarketStructure

definition initial_market_structure :: MarketStructure where
  "initial_market_structure =
     \<lparr>trend = ''neutral'', last_swing_high = 0, last_swing_low = 0,
      swing_high_timestamp = 0, swing_low_timestamp = 0,
      bos_confirmed = False, bos_direction = None,
      mss_confirmed = False, mss_direction = None\<rparr>"

definition new_ICTStrategies :: ICTStrategies where
  "new_ICTStrategies =
     \<lparr>order_blocks = [], fair_value_gaps = [], market_structure = initial_market_structure\<rparr>"

definition new_order_block :: "Candle \<Rightarrow> Candle \<Rightarrow> Direction \<Rightarrow> OrderBlock" where
  "new_order_block previous current ty =
     \<lparr>ob_high = candle_h previous, ob_low = candle_l previous,
      ob_timestamp = candle_t current, ob_type = ty,
      confirmed = False, broken = False, breaker_confirmed = False\<rparr>"

definition detect_order_blocks :: "Candle list \<Rightarrow> ICTStrategies \<Rightarrow> ICTStrategies" where
  "detect_order_blocks df self =
     (let recent_candles = tail 20 df
      in foldl (\<lambda>self i.
                  let current = recent_candles ! i;
                      previous = recent_candles ! (i - 1)
                  in if candle_c current < candle_c previous * 0.98
                       then self\<lparr>order_blocks := order_blocks self @ [new_order_block previous current Bearish]\<rparr>
                     else if candle_c current > candle_c previous * 1.02
                       then self\<lparr>order_blocks := order_blocks self @ [new_order_block previous current Bullish]\<rparr>
                     else self)
               self [1..<length recent_candles])"

definition detect_fair_value_gaps :: "Candle list \<Rightarrow> ICTStrategies \<Rightarrow> ICTStrategies" where
  "detect_fair_value_gaps df self =
     foldl (\<lambda>self i.
              let current = df ! i;
                  prev_candle = df ! (i - 2)
              in if candle_l current > candle_l prev_candle * 1.001
                   then self\<lparr>fair_value_gaps := fair_value_gaps self @
                          [\<lparr>fvg_high = candle_l current, fvg_low = candle_l prev_candle,
                            start_timestamp = candle_t prev_candle, end_timestamp = candle_t current,
                            fvg_direction = Bullish, filled = False, fill_price = None\<rparr>]\<rparr>
                 else if candle_h current < candle_h prev_candle * 0.999
                   then self\<lparr>fair_value_gaps := fair_value_gaps self @
                          [\<lparr>fvg_high = candle_h prev_candle, fvg_low = candle_h current,
                            start_timestamp = candle_t prev_candle, end_timestamp = candle_t current,
                            fvg_direction = Bearish, filled = False, fill_price = None\<rparr>]\<rparr>
                 else self)
           self [2..<length df]"

text \<open>
  Python's \<^verbatim>\<open>max\<close> and \<^verbatim>\<open>min\<close> of a list raise ValueError on the empty list. The two BOS
  checks apply them to the blocks of one type only, after testing that the list of all
  blocks is not empty.
\<close>

definition py_max :: "real list \<Rightarrow> error + real" where
  "py_max xs = (case xs of [] \<Rightarrow> Inl ValueError | y # ys \<Rightarrow> Inr (foldl max y ys))"

definition py_min :: "real list \<Rightarrow> error + real" where
  "py_min xs = (case xs of [] \<Rightarrow> Inl ValueError | y # ys \<Rightarrow> Inr (foldl min y ys))"

definition check_bullish_bos :: "ICTStrategies \<Rightarrow> error + bool" where
  "check_bullish_bos self =
     (if length (order_blocks self) = 0 then Inr False
      else case py_max (map ob_high (filter (\<lambda>block. ob_type block = Bearish) (order_blocks self))) of
             Inl e \<Rightarrow> Inl e
           | Inr recent_resistance \<Rightarrow>
               Inr (last_swing_high (market_structure self) > recent_resistance * 1.001))"

definition check_bearish_bos :: "ICTStrategies \<Rightarrow> error + bool" where
  "check_bearish_bos self =
     (if length (order_blocks self) = 0 then Inr False
      else case py_min (map ob_low (filter (\<lambda>block. ob_type block = Bullish) (order_blocks self))) of
             Inl e \<Rightarrow> Inl e
           | Inr recent_support \<Rightarrow>
               Inr (last_swing_low (market_structure self) < recent_support * 0.999))"

definition bos_bullish_result :: "Candle \<Rightarrow> ICTSignalResult" where
  "bos_bullish_result current =
     \<lparr>signal_type = BOS_BULLISH, strength = 75, confidence = 80,
      price = candle_h current, entry_zone = (candle_l current, candle_h current),
      stop_loss = candle_l current * 0.995, take_profit = candle_h current * 1.02,
      market_phase = None, liquidity_pool = Some (candle_h current)\<rparr>"

definition bos_bearish_result :: "Candle \<Rightarrow> ICTSignalResult" where
  "bos_bearish_result current =
     \<lparr>signal_type = BOS_BEARISH, strength = 75, confidence = 80,
      price = candle_l current, entry_zone = (candle_l current, candle_h current),
      stop_loss = candle_h current * 1.005, take_profit = candle_l current * 0.98,
      market_phase = None, liquidity_pool = Some (candle_l current)\<rparr>"

text \<open>One round of the swing-point loop of \<^verbatim>\<open>_analyze_market_structure\<close>, at index \<open>i\<close>.\<close>

definition structure_step ::
  "Candle list \<Rightarrow> nat \<Rightarrow> ICTSignalResult list \<times> ICTStrategies \<Rightarrow>
     error + (ICTSignalResult list \<times> ICTStrategies)" where
  "structure_step recent_data i acc =
     (let results = fst acc; self = snd acc; current = recent_data ! i in
      if \<forall>j \<in> set [i - 2..<i + 3]. candle_h current \<ge> candle_h (recent_data ! j) then
        (let self1 = self\<lparr>market_structure := (market_structure self)
                          \<lparr>last_swing_high := candle_h current,
                           swing_high_timestamp := candle_t current\<rparr>\<rparr>
         in case check_bullish_bos self1 of
              Inl e \<Rightarrow> Inl e
            | Inr bos \<Rightarrow>
                if bos
                then Inr (results @ [bos_bullish_result current],
                          self1\<lparr>market_structure := (market_structure self1)
                                  \<lparr>bos_confirmed := True, bos_direction := Some Bullish\<rparr>\<rparr>)
                else Inr (results, self1))
      else if \<forall>j \<in> set [i - 2..<i + 3]. candle_l current \<le> candle_l (recent_data ! j) then
        (let self1 = self\<lparr>market_structure := (market_structure self)
                          \<lparr>last_swing_low := candle_l current,
                           swing_low_timestamp := candle_t current\<rparr>\<rparr>
         in case check_bearish_bos self1 of
              Inl e \<Rightarrow> Inl e
            | Inr bos \<Rightarrow>
                if bos
                then Inr (results @ [bos_bearish_result current],
                          self1\<lparr>market_structure := (market_structure self1)
                                  \<lparr>bos_confirmed := True, bos_direction := Some Bearish\<rparr>\<rparr>)
                else Inr (results, self1))
      else Inr acc)"

definition analyze_market_structure ::
  "Candle list \<Rightarrow> ICTStrategies \<Rightarrow> error + (ICTSignalResult list \<times> ICTStrategies)" where
  "analyze_market_structure df self =
     (if length df < 10 then Inr ([], self)
      else let recent_data = tail 10 df
           in fold_err (structure_step recent_data) [2..<length recent_data - 2] ([], self))"

definition bullish_breaker_result :: "real \<Rightarrow> OrderBlock \<Rightarrow> ICTSignalResult" where
  "bullish_breaker_result current_price block =
     \<lparr>signal_type = BULLISH_BREAKER, strength = 85, confidence = 90,
      price = current_price, entry_zone = (ob_low block, ob_high block),
      stop_loss = ob_low block * 0.997, take_profit = ob_high block * 1.03,
      market_phase = Some ''Smart Money Reversal (SMR)'', liquidity_pool = None\<rparr>"

definition bearish_breaker_result :: "real \<Rightarrow> OrderBlock \<Rightarrow> ICTSignalResult" where
  "bearish_breaker_result current_price block =
     \<lparr>signal_type = BEARISH_BREAKER, strength = 85, confidence = 90,
      price = current_price, entry_zone = (ob_low block, ob_high block),
      stop_loss = ob_high block * 1.003, take_profit = ob_low block * 0.97,
      market_phase = Some ''Smart Money Reversal (SMR)'', liquidity_pool = None\<rparr>"

text \<open>
  One round of the loop of \<^verbatim>\<open>_detect_breaker_blocks\<close>, for the block at index \<open>k\<close> of
  \<^verbatim>\<open>self.order_blocks\<close>. The source sets the two flags on the block object, which the list
  holds; here the list is updated at that index.
\<close>

definition breaker_step ::
  "real \<Rightarrow> ICTSignalResult list \<times> OrderBlock list \<Rightarrow> nat \<Rightarrow>
     ICTSignalResult list \<times> OrderBlock list" where
  "breaker_step current_price acc k =
     (let results = fst acc; blocks = snd acc; block = blocks ! k in
      if \<not> broken block then
        (if ob_type block = Bearish \<and> current_price > ob_high block
           then (results @ [bullish_breaker_result current_price block],
                 blocks[k := block\<lparr>broken := True, breaker_confirmed := True\<rparr>])
         else if ob_type block = Bullish \<and> current_price < ob_low block
           then (results @ [bearish_breaker_result current_price block],
                 blocks[k := block\<lparr>broken := True, breaker_confirmed := True\<rparr>])
         else acc)
      else acc)"

definition detect_breaker_blocks ::
  "Candle list \<Rightarrow> ICTStrategies \<Rightarrow> ICTSignalResult list \<times> ICTStrategies" where
  "detect_breaker_blocks recent_candles self =
     (if length recent_candles < 3 then ([], self)
      else let current_price = candle_c (last recent_candles);
               blocks = order_blocks self;
               r = foldl (breaker_step current_price) ([], blocks)
                         [length blocks - 10..<length blocks]
           in (fst r, self\<lparr>order_blocks := snd r\<rparr>))"

definition detect_market_maker_buy_model :: "Candle list \<Rightarrow> bool" where
  "detect_market_maker_buy_model df =
     (let recent_lows = map candle_l (tail 5 df);
          current_price = candle_c (last df);
          higher_lows = (\<forall>i \<in> set [1..<length recent_lows].
                            recent_lows ! i \<ge> recent_lows ! (i - 1) * 0.9995);
          recent_high = Max (set (map candle_h (tail 10 df)));
          above_range = (current_price > recent_high * 0.998)
      in higher_lows \<and> above_range)"

definition detect_market_maker_sell_model :: "Candle list \<Rightarrow> bool" where
  "detect_market_maker_sell_model df =
     (let recent_highs = map candle_h (tail 5 df);
          current_price = candle_c (last df);
          lower_highs = (\<forall>i \<in> set [1..<length recent_highs].
                            recent_highs ! i \<le> recent_highs ! (i - 1) * 1.0005);
          recent_low = Min (set (map candle_l (tail 10 df)));
          below_range = (current_price < recent_low * 1.002)
      in lower_highs \<and> below_range)"

definition analyze_market_maker_model :: "Candle list \<Rightarrow> ICTSignalResult list" where
  "analyze_market_maker_model df =
     (if length df < 30 then []
      else
        let recent_data = tail 30 df;
            current_price = candle_c (last recent_data);
            avg_price = mean (map candle_c recent_data)
        in if detect_market_maker_buy_model recent_data then
             [\<lparr>signal_type = MM_BUY_MODEL, strength = 90, confidence = 85,
               price = current_price, entry_zone = (avg_price * 0.99, avg_price),
               stop_loss = Min (set (map candle_l recent_data)) * 0.997,
               take_profit = avg_price * 1.05,
               market_phase = Some ''Accumulation to Distribution'', liquidity_pool = None\<rparr>]
           else if detect_market_maker_sell_model recent_data then
             [\<lparr>signal_type = MM_SELL_MODEL, strength = 90, confidence = 85,
               price = current_price, entry_zone = (avg_price, avg_price * 1.01),
               stop_loss = Max (set (map candle_h recent_data)) * 1.003,
               take_profit = avg_price * 0.95,
               market_phase = Some ''Distribution to Accumulation'', liquidity_pool = None\<rparr>]
           else [])"

text \<open>
  \<^verbatim>\<open>_rank_and_filter_signals\<close>. \<^verbatim>\<open>sorted(..., reverse=True)\<close> is stable: signals of equal
  key keep their order, which is the stable ascending sort by the negated key. The loop
  keeps a signal when its type is new and fewer than three are kept.
\<close>

definition keep_unique :: "('a \<Rightarrow> 'b) \<Rightarrow> 'a list \<Rightarrow> 'a list" where
  "keep_unique ty sorted_signals =
     foldl (\<lambda>unique_signals signal.
              if ty signal \<notin> set (map ty unique_signals) \<and> length unique_signals < 3
              then unique_signals @ [signal] else unique_signals)
           [] sorted_signals"

definition rank_and_filter_signals :: "ICTSignalResult list \<Rightarrow> ICTSignalResult list" where
  "rank_and_filter_signals signals =
     (if signals = [] then []
      else keep_unique signal_type (sort_key (\<lambda>x. - (strength x * confidence x)) signals))"

text \<open>\<^verbatim>\<open>ICTStrategies.analyze_candles\<close>: the signals returned and the instance afterwards.\<close>

definition analyze_candles ::
  "Candle list \<Rightarrow> ICTStrategies \<Rightarrow> error + (ICTSignalResult list \<times> ICTStrategies)" where
  "analyze_candles candles self =
     (if length candles < 50 then Inr ([], self)
      else
        let self1 = detect_order_blocks candles self;
            self2 = detect_fair_value_gaps candles self1
        in case analyze_market_structure candles self2 of
             Inl e \<Rightarrow> Inl e
           | Inr (bos_mss_results, self3) \<Rightarrow>
              (let (breaker_results, self4) = detect_breaker_blocks (tail 20 candles) self3;
                   mm_results = analyze_market_maker_model candles
               in Inr (rank_and_filter_signals (bos_mss_results @ breaker_results @ mm_results),
                       self4)))"

section \<open>SMC detector (app/engine/smc_strategies.py)\<close>

datatype SMCSignal =
    LIQUIDITY_SWEEP_BULLISH | LIQUIDITY_SWEEP_BEARISH
  | INDUCEMENT_BULLISH | INDUCEMENT_BEARISH
  | MITIGATION_BULLISH | MITIGATION_BEARISH
  | BPR_BULLISH | BPR_BEARISH | SMC_NEUTRAL

text \<open>The strings \<^verbatim>\<open>'buy_side'\<close> and \<^verbatim>\<open>'sell_side'\<close> of a pool type.\<close>

datatype PoolSide = buy_side | sell_side

record LiquidityPool =
  price_level :: real
  pool_type :: PoolSide
  pool_timestamp :: int
  sweep_count :: nat
  swept :: bool
  sweep_timestamp :: "int option"
  pool_rejection :: bool

record InducementPattern =
  ind_direction :: Direction
  inducement_price :: real
  reversal_price :: real
  ind_timestamp :: int
  wick_percentage :: real
  ind_confirmed :: bool

text \<open>
  \<^verbatim>\<open>signal_generated\<close> is the attribute that \<^verbatim>\<open>_detect_mitigation_setups\<close> adds to a zone
  once it has produced its signal, and whose presence it tests with \<^verbatim>\<open>hasattr\<close>.
\<close>

record MitigationZone =
  original_type :: string
  zone_high :: real
  zone_low :: real
  mz_fill_price :: real
  mz_timestamp :: int
  mz_direction :: Direction
  mz_rejection :: bool
  signal_generated :: bool

record BalancedPriceRange =
  bpr_high :: real
  bpr_low :: real
  bpr_start_timestamp :: int
  bpr_end_timestamp :: int
  equilibrium_price :: real
  bpr_confirmed :: bool
  breakout_direction :: "string option"

text \<open>\<^verbatim>\<open>SMCSignalResult\<close>, again without the \<^verbatim>\<open>rationale\<close> text.\<close>

record SMCSignalResult =
  smc_signal_type :: SMCSignal
  smc_strength :: real
  smc_confidence :: real
  smc_price :: real
  smc_entry_zone :: "real \<times> real"
  smc_stop_loss :: real
  smc_take_profit :: real
  liquidity_target :: "real option"
  confluence_ict :: bool

text \<open>
  The instance attributes of \<^verbatim>\<open>SMCStrategies\<close> that its methods read or write
  (\<^verbatim>\<open>price_history\<close> and the two swing lists are never touched).
\<close>

record SMCStrategies =
  liquidity_pools :: "LiquidityPool list"
  inducements :: "InducementPattern list"
  mitigation_zones :: "MitigationZone list"
  bpr_zones :: "BalancedPriceRange list"

definition new_SMCStrategies :: SMCStrategies where
  "new_SMCStrategies =
     \<lparr>liquidity_pools = [], inducements = [], mitigation_zones = [], bpr_zones = []\<rparr>"

text \<open>
  \<^verbatim>\<open>abs(a - b) / b < 0.001\<close> on numpy doubles. Division by zero does not raise there: it
  gives an infinity or NaN, and the comparison is then false.
\<close>

definition within_tolerance :: "real \<Rightarrow> real \<Rightarrow> bool" where
  "within_tolerance a b = (b \<noteq> 0 \<and> \<bar>a - b\<bar> / b < 0.001)"

text \<open>
  The pair loop of \<^verbatim>\<open>_detect_liquidity_pools\<close> over one column of the last 20 candles:
  \<open>xs\<close> are the highs or the lows, \<open>ts\<close> the timestamps, \<open>side\<close> the pool type.
\<close>

definition pool_pairs :: "nat \<Rightarrow> (nat \<times> nat) list" where
  "pool_pairs n = concat (map (\<lambda>i. map (\<lambda>j. (i, j)) [i + 1..<n]) [0..<n])"

definition pool_step ::
  "real list \<Rightarrow> int list \<Rightarrow> PoolSide \<Rightarrow> LiquidityPool list \<Rightarrow> nat \<times> nat \<Rightarrow> LiquidityPool list" where
  "pool_step xs ts side pools ij =
     (let i = fst ij; j = snd ij in
      if within_tolerance (xs ! j) (xs ! i) then
        (let pool = \<lparr>price_level = xs ! i, pool_type = side, pool_timestamp = ts ! j,
                     sweep_count = 0, swept = False, sweep_timestamp = None,
                     pool_rejection = False\<rparr>
         in if \<not> (\<exists>p \<in> set (filter (\<lambda>p. pool_type p = side) pools).
                     within_tolerance (price_level p) (xs ! i))
            then pools @ [pool] else pools)
      else pools)"

definition detect_liquidity_pools :: "Candle list \<Rightarrow> SMCStrategies \<Rightarrow> SMCStrategies" where
  "detect_liquidity_pools df self =
     (let window = 20 in
      if length df < window then self
      else
        let recent_data = tail window df;
            ts = map candle_t recent_data;
            highs = map candle_h recent_data;
            pools1 = foldl (pool_step highs ts buy_side) (liquidity_pools self)
                           (pool_pairs (length highs));
            lows = map candle_l recent_data;
            pools2 = foldl (pool_step lows ts sell_side) pools1 (pool_pairs (length lows))
        in self\<lparr>liquidity_pools := pools2\<rparr>)"

text \<open>
  One round of the loop of \<^verbatim>\<open>_detect_liquidity_sweeps\<close>, for the pool at index \<open>k\<close>; a
  swept pool is marked in place.
\<close>

definition sweep_step ::
  "Candle list \<Rightarrow> real \<Rightarrow> SMCSignalResult list \<times> LiquidityPool list \<Rightarrow> nat \<Rightarrow>
     SMCSignalResult list \<times> LiquidityPool list" where
  "sweep_step df current_price acc k =
     (let results = fst acc; pools = snd acc; pool = pools ! k; recent_data = tail 5 df in
      if swept pool then acc
      else if pool_type pool = buy_side then
        (let high_violation = (\<exists>x \<in> set (map candle_h recent_data). x > price_level pool * 1.001);
             rejection = (current_price < price_level pool)
         in if high_violation \<and> rejection then
              (let recent_low = Min (set (map candle_l (tail 10 df)));
                   target = price_level pool + (price_level pool - recent_low) * 1.5
               in (results @
                     [\<lparr>smc_signal_type = LIQUIDITY_SWEEP_BEARISH, smc_strength = 85,
                       smc_confidence = 80, smc_price = current_price,
                       smc_entry_zone = (current_price * 0.998, current_price * 1.002),
                       smc_stop_loss = price_level pool * 1.005, smc_take_profit = target,
                       liquidity_target = Some recent_low, confluence_ict = False\<rparr>],
                   pools[k := pool\<lparr>swept := True,
                                    sweep_timestamp := Some (candle_t (last df)),
                                    pool_rejection := True\<rparr>]))
            else acc)
      else
        (let low_violation = (\<exists>x \<in> set (map candle_l recent_data). x < price_level pool * 0.999);
             rejection = (current_price > price_level pool)
         in if low_violation \<and> rejection then
              (let recent_high = Max (set (map candle_h (tail 10 df)));
                   target = price_level pool - (recent_high - price_level pool) * 1.5
               in (results @
                     [\<lparr>smc_signal_type = LIQUIDITY_SWEEP_BULLISH, smc_strength = 85,
                       smc_confidence = 80, smc_price = current_price,
                       smc_entry_zone = (current_price * 0.998, current_price * 1.002),
                       smc_stop_loss = price_level pool * 0.995, smc_take_profit = target,
                       liquidity_target = Some recent_high, confluence_ict = False\<rparr>],
                   pools[k := pool\<lparr>swept := True,
                                    sweep_timestamp := Some (candle_t (last df)),
                                    pool_rejection := True\<rparr>]))
            else acc))"

definition detect_liquidity_sweeps ::
  "Candle list \<Rightarrow> real \<Rightarrow> SMCStrategies \<Rightarrow> SMCSignalResult list \<times> SMCStrategies" where
  "detect_liquidity_sweeps df current_price self =
     (let r = foldl (sweep_step df current_price) ([], liquidity_pools self)
                    [0..<length (liquidity_pools self)]
      in (fst r, self\<lparr>liquidity_pools := snd r\<rparr>))"

text \<open>
  \<^verbatim>\<open>_detect_inducements\<close>. In either branch the pattern is appended to
  \<^verbatim>\<open>self.inducements\<close> and the result is then built with a rationale that formats
  \<^verbatim>\<open>wick_percentage\<close>, a name bound nowhere in the function or the module (it occurs only
  as the keyword of the \<^verbatim>\<open>InducementPattern\<close> constructor): evaluating it raises
  NameError, so the statement that appends the result (strength 75, confidence 70) is
  never reached.
\<close>

definition lower_wick_pattern :: "Candle \<Rightarrow> bool" where
  "lower_wick_pattern candle =
     (let body_size = \<bar>candle_c candle - candle_o candle\<bar>;
          lower_wick = min (candle_o candle) (candle_c candle) - candle_l candle
      in lower_wick > body_size * 2 \<and> candle_c candle > candle_o candle)"

definition upper_wick_pattern :: "Candle \<Rightarrow> bool" where
  "upper_wick_pattern candle =
     (let body_size = \<bar>candle_c candle - candle_o candle\<bar>;
          upper_wick = candle_h candle - max (candle_o candle) (candle_c candle)
      in upper_wick > body_size * 2 \<and> candle_c candle < candle_o candle)"

definition inducement_step ::
  "Candle list \<Rightarrow> nat \<Rightarrow> SMCSignalResult list \<Rightarrow> error + SMCSignalResult list" where
  "inducement_step recent i results =
     (let candle = recent ! i in
      if lower_wick_pattern candle then Inl NameError
      else if upper_wick_pattern candle then Inl NameError
      else Inr results)"

definition detect_inducements :: "Candle list \<Rightarrow> error + SMCSignalResult list" where
  "detect_inducements df =
     (if length df < 5 then Inr []
      else let recent = tail 5 df
           in fold_err (inducement_step recent) [2..<length recent] [])"

text \<open>
  \<^verbatim>\<open>np.percentile(xs, q)\<close> with the default linear interpolation between the two order
  statistics around the rank \<open>q / 100 * (n - 1)\<close>.
\<close>

definition percentile :: "real list \<Rightarrow> real \<Rightarrow> real" where
  "percentile xs q =
     (let s = sort xs;
          rank = q / 100 * real (length xs - 1);
          lo = nat \<lfloor>rank\<rfloor>;
          hi = min (lo + 1) (length xs - 1)
      in s ! lo + (rank - real lo) * (s ! hi - s ! lo))"

definition detect_bpr_zones ::
  "Candle list \<Rightarrow> real \<Rightarrow> SMCStrategies \<Rightarrow> SMCSignalResult list \<times> SMCStrategies" where
  "detect_bpr_zones df current_price self =
     (if length df < 10 then ([], self)
      else
        let recent = tail 10 df;
            z_high = percentile (map candle_h recent) 75;
            z_low = percentile (map candle_l recent) 25
        in if z_high > z_low * 1.01 \<and> z_low * 0.995 \<le> current_price
              \<and> current_price \<le> z_high * 1.005
           then
             (let equilibrium = (z_high + z_low) / 2;
                  bpr = \<lparr>bpr_high = z_high, bpr_low = z_low,
                         bpr_start_timestamp = candle_t (hd recent),
                         bpr_end_timestamp = candle_t (last recent),
                         equilibrium_price = equilibrium, bpr_confirmed = True,
                         breakout_direction = None\<rparr>;
                  result =
                    (if current_price > equilibrium
                     then \<lparr>smc_signal_type = BPR_BULLISH, smc_strength = 65, smc_confidence = 60,
                           smc_price = current_price,
                           smc_entry_zone = (equilibrium * 0.998, equilibrium * 1.002),
                           smc_stop_loss = z_low * 0.995,
                           smc_take_profit = z_high + (z_high - z_low),
                           liquidity_target = None, confluence_ict = False\<rparr>
                     else \<lparr>smc_signal_type = BPR_BEARISH, smc_strength = 65, smc_confidence = 60,
                           smc_price = current_price,
                           smc_entry_zone = (equilibrium * 0.998, equilibrium * 1.002),
                           smc_stop_loss = z_high * 1.005,
                           smc_take_profit = z_low - (z_high - z_low),
                           liquidity_target = None, confluence_ict = False\<rparr>)
              in ([result], self\<lparr>bpr_zones := bpr_zones self @ [bpr]\<rparr>))
           else ([], self))"

definition update_mitigation_tracking :: "Candle list \<Rightarrow> SMCStrategies \<Rightarrow> SMCStrategies" where
  "update_mitigation_tracking df self =
     (let current_price = candle_c (last df)
      in self\<lparr>mitigation_zones :=
           map (\<lambda>zone.
                  if \<not> mz_rejection zone then
                    (if mz_direction zone = Bullish \<and> current_price > mz_fill_price zone * 1.01
                       then zone\<lparr>mz_rejection := True\<rparr>
                     else if mz_direction zone = Bearish \<and> current_price < mz_fill_price zone * 0.99
                       then zone\<lparr>mz_rejection := True\<rparr>
                     else zone)
                  else zone)
               (mitigation_zones self)\<rparr>)"

definition mitigation_result :: "real \<Rightarrow> MitigationZone \<Rightarrow> SMCSignalResult" where
  "mitigation_result current_price zone =
     (if mz_direction zone = Bullish
      then \<lparr>smc_signal_type = MITIGATION_BULLISH, smc_strength = 80, smc_confidence = 75,
            smc_price = current_price,
            smc_entry_zone = (mz_fill_price zone * 0.997, mz_fill_price zone * 1.003),
            smc_stop_loss = zone_low zone * 0.995,
            smc_take_profit = current_price + (current_price - zone_low zone) * 2,
            liquidity_target = None, confluence_ict = False\<rparr>
      else \<lparr>smc_signal_type = MITIGATION_BEARISH, smc_strength = 80, smc_confidence = 75,
            smc_price = current_price,
            smc_entry_zone = (mz_fill_price zone * 0.997, mz_fill_price zone * 1.003),
            smc_stop_loss = zone_high zone * 1.005,
            smc_take_profit = current_price - (zone_high zone - current_price) * 2,
            liquidity_target = None, confluence_ict = False\<rparr>)"

definition detect_mitigation_setups ::
  "real \<Rightarrow> SMCStrategies \<Rightarrow> SMCSignalResult list \<times> SMCStrategies" where
  "detect_mitigation_setups current_price self =
     (let fire = (\<lambda>zone. mz_rejection zone \<and> \<not> signal_generated zone)
      in (map (mitigation_result current_price) (filter fire (mitigation_zones self)),
          self\<lparr>mitigation_zones :=
                 map (\<lambda>zone. if fire zone then zone\<lparr>signal_generated := True\<rparr> else zone)
                     (mitigation_zones self)\<rparr>))"

definition add_mitigation_zone ::
  "string \<Rightarrow> real \<Rightarrow> real \<Rightarrow> real \<Rightarrow> int \<Rightarrow> Direction \<Rightarrow> SMCStrategies \<Rightarrow> SMCStrategies" where
  "add_mitigation_zone otype z_high z_low fill ts dir self =
     self\<lparr>mitigation_zones := mitigation_zones self @
            [\<lparr>original_type = otype, zone_high = z_high, zone_low = z_low,
              mz_fill_price = fill, mz_timestamp = ts, mz_direction = dir,
              mz_rejection = False, signal_generated = False\<rparr>]\<rparr>"

definition smc_rank_and_filter_signals :: "SMCSignalResult list \<Rightarrow> SMCSignalResult list" where
  "smc_rank_and_filter_signals signals =
     (if signals = [] then []
      else keep_unique smc_signal_type
             (sort_key (\<lambda>x. - (smc_strength x * smc_confidence x)) signals))"

text \<open>\<^verbatim>\<open>SMCStrategies.analyze_candles\<close>: the signals returned and the instance afterwards.\<close>

definition smc_analyze_candles ::
  "Candle list \<Rightarrow> SMCStrategies \<Rightarrow> error + (SMCSignalResult list \<times> SMCStrategies)" where
  "smc_analyze_candles candles self =
     (if length candles < 30 then Inr ([], self)
      else
        let current_price = candle_c (last candles);
            self1 = detect_liquidity_pools candles self;
            (sweep_results, self2) = detect_liquidity_sweeps candles current_price self1
        in case detect_inducements candles of
             Inl e \<Rightarrow> Inl e
           | Inr inducement_results \<Rightarrow>
              (let (bpr_results, self3) = detect_bpr_zones candles current_price self2;
                   self4 = update_mitigation_tracking candles self3;
                   (mitigation_results, self5) = detect_mitigation_setups current_price self4
               in Inr (smc_rank_and_filter_signals
                         (sweep_results @ inducement_results @ bpr_results @ mitigation_results),
                       self5)))"

section \<open>Signal engine (app/engine/__init__.py)\<close>

datatype MiniSignal = MS_BULLISH | MS_BEARISH | MS_NEUTRAL

datatype Recommendation = BUY | SELL | NEUTRAL

datatype SignalQuality = EXCELLENT | GOOD | MODERATE | POOR | REJECT

text \<open>
  The two fields of \<^verbatim>\<open>AIConfidenceScore\<close> that \<^verbatim>\<open>generate_signal\<close> computes with; the
  others only feed the rationale text. \<open>determine_quality_rating\<close> is the enhancer's own
  mapping from the probability to the rating.
\<close>

record AIConfidenceScore =
  success_probability :: real
  quality_rating :: SignalQuality

definition determine_quality_rating :: "real \<Rightarrow> SignalQuality" where
  "determine_quality_rating probability =
     (if probability \<ge> 90 then EXCELLENT
      else if probability \<ge> 75 then GOOD
      else if probability \<ge> 50 then MODERATE
      else if probability \<ge> 25 then POOR
      else REJECT)"

record SignalBreakdown =
  d1 :: MiniSignal
  h1 :: MiniSignal
  m15 :: MiniSignal

text \<open>
  \<^verbatim>\<open>SignalResponse\<close> without \<^verbatim>\<open>rationale\<close> and \<^verbatim>\<open>updated_at\<close> (text and a clock
  reading). Its field \<^verbatim>\<open>strength\<close> is declared \<^verbatim>\<open>Field(..., ge=0, le=100)\<close>: constructing
  a response with a strength outside \<open>[0, 100]\<close> raises pydantic's ValidationError.
\<close>

record SignalResponse =
  symbol :: string
  recommendation :: Recommendation
  response_strength :: int
  breakdown :: SignalBreakdown

definition new_SignalResponse ::
  "string \<Rightarrow> Recommendation \<Rightarrow> int \<Rightarrow> SignalBreakdown \<Rightarrow> error + SignalResponse" where
  "new_SignalResponse symb recm str bd =
     (if 0 \<le> str \<and> str \<le> 100
      then Inr \<lparr>symbol = symb, recommendation = recm, response_strength = str, breakdown = bd\<rparr>
      else Inl ValidationError)"

text \<open>
  The scoring part of \<^verbatim>\<open>evaluate_timeframe\<close>, on the indicator values at the last candle.
  It returns the mini-signal and the strength contribution.
\<close>

definition score_indicators ::
  "real \<Rightarrow> real \<Rightarrow> real \<Rightarrow> real \<Rightarrow> real \<Rightarrow> real \<Rightarrow> real \<Rightarrow> MiniSignal \<times> int" where
  "score_indicators close sma50 sma200 rsi14 macd_line macd_signal macd_hist =
     (let trend = (if sma50 > sma200 then (30, 0) else if sma50 < sma200 then (0, 30) else (0, 0));
          location = (if close > sma50 then (25, 0) else if close < sma50 then (0, 25) else (0, 0));
          momentum = (if rsi14 < 30 then (25, 0)
                      else if rsi14 > 70 then (0, 25)
                      else if 40 \<le> rsi14 \<and> rsi14 \<le> 60 then (0, 0)
                      else if rsi14 > 60 then (0, 10) else (10, 0));
          cross = (if macd_line > macd_signal \<and> macd_hist > 0 then (20, 0)
                   else if macd_line < macd_signal \<and> macd_hist < 0 then (0, 20) else (0, 0));
          bullish_score = fst trend + fst location + fst momentum + fst cross;
          bearish_score = snd trend + snd location + snd momentum + snd cross;
          net_score = bullish_score - bearish_score;
          mini_signal = (if net_score > 30 then MS_BULLISH
                         else if net_score < - 30 then MS_BEARISH else MS_NEUTRAL);
          strength_contribution = min 100 (max 0 \<bar>net_score\<bar>)
      in (mini_signal, strength_contribution))"

text \<open>
  \<^verbatim>\<open>evaluate_timeframe\<close> with \<^verbatim>\<open>calculate_all_indicators\<close> inlined. Comparing a
  \<^verbatim>\<open>None\<close> histogram with 0 would raise TypeError; the histogram is not among the values
  tested for \<^verbatim>\<open>None\<close>.
\<close>

definition evaluate_timeframe :: "Candle list \<Rightarrow> error + (MiniSignal \<times> int)" where
  "evaluate_timeframe candles =
     (if candles = [] \<or> length candles < 200 then Inr (MS_NEUTRAL, 0)
      else
        let closes = map candle_c candles in
        case sma closes 50 of Inl e \<Rightarrow> Inl e | Inr sma50 \<Rightarrow>
        case sma closes 200 of Inl e \<Rightarrow> Inl e | Inr sma200 \<Rightarrow>
        case macd closes 12 26 9 of Inl e \<Rightarrow> Inl e | Inr (macd_line, signal_line, histogram) \<Rightarrow>
        (case (last sma50, last sma200, last (rsi closes 14), last macd_line, last signal_line) of
           (Some s50, Some s200, Some r, Some ml, Some sl) \<Rightarrow>
             (case last histogram of
                None \<Rightarrow> Inl TypeError
              | Some hist \<Rightarrow> Inr (score_indicators (last closes) s50 s200 r ml sl hist))
         | _ \<Rightarrow> Inr (MS_NEUTRAL, 0)))"

text \<open>
  Steps 3 to 7 of \<^verbatim>\<open>generate_signal\<close>, from the three timeframe results on: weighted
  strength, confluence bonus, final strength, recommendation with its two overrides, the
  kill-zone adjustment of the strength, and the construction of the response.
  \<open>phase1_bonus\<close> is the bonus returned by \<^verbatim>\<open>calculate_phase1_enhancement\<close> (between 0 and
  40), \<open>ai_score\<close> the score returned by \<^verbatim>\<open>enhance_signal\<close> (a probability between 0 and
  100 with its rating), and \<open>current_timestamp\<close> the reading of the clock
  \<^verbatim>\<open>int(datetime.utcnow().timestamp())\<close>.
\<close>

definition calculate_final_signal ::
  "string \<Rightarrow> MiniSignal \<times> int \<Rightarrow> MiniSignal \<times> int \<Rightarrow> MiniSignal \<times> int \<Rightarrow>
     real \<Rightarrow> AIConfidenceScore \<Rightarrow> int \<Rightarrow> error + SignalResponse" where
  "calculate_final_signal symb r15 r1h r1d phase1_bonus ai_score current_timestamp =
     (let m15_signal = fst r15; m15_strength = snd r15;
          h1_signal = fst r1h; h1_strength = snd r1h;
          d1_signal = fst r1d; d1_strength = snd r1d;
          weighted_strength = real_of_int m15_strength * 0.35 + real_of_int h1_strength * 0.35
                                + real_of_int d1_strength * 0.30;
          signals = [m15_signal, h1_signal, d1_signal];
          bullish_count = int (count_list signals MS_BULLISH);
          bearish_count = int (count_list signals MS_BEARISH);
          confluence_bonus = (if bullish_count \<ge> 2 then 15 * bullish_count
                              else if bearish_count \<ge> 2 then 15 * bearish_count else 0);
          final_strength = min 100 (py_int (weighted_strength + real_of_int confluence_bonus
                                    + phase1_bonus + (success_probability ai_score - 50) * 0.3));
          rec0 = (if bullish_count \<ge> 2 then BUY else if bearish_count \<ge> 2 then SELL else NEUTRAL);
          rec1 = (if quality_rating ai_score \<in> {POOR, REJECT} \<and> final_strength < 50
                  then NEUTRAL else rec0);
          rec2 = (if final_strength < 40 then NEUTRAL else rec1)
      in case get_current_kill_zone current_timestamp of
           Inl e \<Rightarrow> Inl e
         | Inr kill_zone_info \<Rightarrow>
            (case should_trade_signal current_timestamp (real_of_int final_strength) of
               Inl e \<Rightarrow> Inl e
             | Inr (should_trade, kill_zone_reason) \<Rightarrow>
                (let adjusted =
                       (if is_active kill_zone_info \<and> optimal_for_entries kill_zone_info
                          then min 100 (final_strength + 5)
                        else if zone_type kill_zone_info = OFF_HOURS \<and> \<not> should_trade
                          then max 0 (final_strength - 15)
                        else final_strength)
                 in new_SignalResponse symb rec2 adjusted
                      \<lparr>d1 = d1_signal, h1 = h1_signal, m15 = m15_signal\<rparr>)))"

text \<open>The two detector instances that a \<^verbatim>\<open>SignalEngine\<close> keeps between calls.\<close>

record SignalEngine =
  ict_strategies :: ICTStrategies
  smc_strategies :: SMCStrategies

definition new_SignalEngine :: SignalEngine where
  "new_SignalEngine = \<lparr>ict_strategies = new_ICTStrategies, smc_strategies = new_SMCStrategies\<rparr>"

text \<open>
  \<^verbatim>\<open>generate_signal\<close>: the ICT detector, then the SMC detector, on the 1h candles (the 15m
  candles if there are none), the three timeframe evaluations, the two enhancers, and the
  steps above. Of the Phase-1 enhancer and the AI enhancer the model has what they return,
  which is an argument, and the two ways in which they raise on candles without NaN:
  \<^item> \<^verbatim>\<open>calculate_phase1_enhancement\<close> returns at once on an empty list and otherwise
    converts the timestamp of the last analysis candle with \<^verbatim>\<open>datetime.fromtimestamp\<close>
    (kill zones are enabled by default), which raises outside the years 1 to 9999;
  \<^item> \<^verbatim>\<open>enhance_signal\<close> reads the column \<^verbatim>\<open>'volume'\<close> of the data frame built from the
    analysis candles, and the frame of an empty list has no columns: KeyError.
  No exception is caught; the first one ends the call. The result is the response and
  the engine afterwards.
\<close>

definition generate_signal ::
  "string \<Rightarrow> Candle list \<Rightarrow> Candle list \<Rightarrow> Candle list \<Rightarrow> real \<Rightarrow> AIConfidenceScore \<Rightarrow> int \<Rightarrow>
     SignalEngine \<Rightarrow> error + (SignalResponse \<times> SignalEngine)" where
  "generate_signal symb candles_15m candles_1h candles_1d phase1_bonus ai_score current_timestamp self =
     (let analysis_candles = (if candles_1h \<noteq> [] then candles_1h else candles_15m) in
      case analyze_candles analysis_candles (ict_strategies self) of
        Inl e \<Rightarrow> Inl e
      | Inr (ict_signals, ict1) \<Rightarrow>
      (case smc_analyze_candles analysis_candles (smc_strategies self) of
        Inl e \<Rightarrow> Inl e
      | Inr (smc_signals, smc1) \<Rightarrow>
      (case evaluate_timeframe candles_15m of
        Inl e \<Rightarrow> Inl e
      | Inr r15 \<Rightarrow>
      (case evaluate_timeframe candles_1h of
        Inl e \<Rightarrow> Inl e
      | Inr r1h \<Rightarrow>
      (case evaluate_timeframe candles_1d of
        Inl e \<Rightarrow> Inl e
      | Inr r1d \<Rightarrow>
      if analysis_candles \<noteq> []
         \<and> (candle_t (last analysis_candles) < - 62135596800
              \<or> 253402300799 < candle_t (last analysis_candles))
        then Inl DateOutOfRange
      else if analysis_candles = [] then Inl KeyError
      else
      (case calculate_final_signal symb r15 r1h r1d phase1_bonus ai_score current_timestamp of
        Inl e \<Rightarrow> Inl e
      | Inr response \<Rightarrow>
          Inr (response, \<lparr>ict_strategies = ict1, smc_strategies = smc1\<rparr>)))))))"

section \<open>Candle series used as concrete inputs\<close>

text \<open>
  Hourly candles with ascending timestamps. \<open>flat_candle p i\<close> is the \<open>i\<close>-th hour with open,
  high, low and close all equal to \<open>p\<close>.
\<close>

definition flat_candle :: "real \<Rightarrow> nat \<Rightarrow> Candle" where
  "flat_candle p i =
     \<lparr>candle_t = 3600 * int i, candle_o = p, candle_h = p, candle_l = p, candle_c = p,
      candle_v = 1000\<rparr>"

text \<open>A candle that opens at 100, dips to 98 and closes at its high of 100.5.\<close>

definition hammer_candle :: "nat \<Rightarrow> Candle" where
  "hammer_candle i =
     \<lparr>candle_t = 3600 * int i, candle_o = 100, candle_h = 100.5, candle_l = 98,
      candle_c = 100.5, candle_v = 1000\<rparr>"

text \<open>Thirty candles, flat at 100, the last one a hammer.\<close>

definition hammer_last_candles :: "Candle list" where
  "hammer_last_candles = map (flat_candle 100) [0..<29] @ [hammer_candle 29]"

text \<open>Thirty candles, flat at 100, the fifth from the end a hammer.\<close>

definition hammer_early_candles :: "Candle list" where
  "hammer_early_candles =
     map (flat_candle 100) [0..<25] @ [hammer_candle 25] @ map (flat_candle 100) [26..<30]"

text \<open>Fifty candles, flat at 100 and then, from the 32nd on, flat at 103.\<close>

definition jump_candles :: "Candle list" where
  "jump_candles = map (flat_candle 100) [0..<31] @ map (flat_candle 103) [31..<50]"

text \<open>
  Fifty candles, flat at 100 but for the 31st, which spans 108 to 110 and closes at 109; the
  fall back to 100 after it makes it a bearish order block.
\<close>

definition selloff_candles :: "Candle list" where
  "selloff_candles =
     map (flat_candle 100) [0..<30] @
     [\<lparr>candle_t = 3600 * 30, candle_o = 109, candle_h = 110, candle_l = 108, candle_c = 109,
       candle_v = 1000\<rparr>] @
     map (flat_candle 100) [31..<50]"

text \<open>The fifty hours after that, flat at 111.\<close>

definition rally_candles :: "Candle list" where
  "rally_candles = map (flat_candle 111) [50..<100]"

section \<open>Results on the indicator library\<close>

lemma sum_list_window:
  "k + p \<le> length a \<Longrightarrow>
     sum_list (map (\<lambda>j. a ! (k + j) * c) [0..<p]) = sum_list (take p (drop k a)) * (c::real)"
proof -
  assume len: "k + p \<le> length a"
  have "map (\<lambda>j. a ! (k + j)) [0..<p] = take p (drop k a)"
    using len by (intro nth_equalityI) auto
  then have "sum_list (take p (drop k a)) * c = sum_list (map (\<lambda>j. a ! (k + j)) [0..<p]) * c"
    by simp
  also have "\<dots> = sum_list (map (\<lambda>j. a ! (k + j) * c) [0..<p])"
    by (simp add: sum_list_mult_const [symmetric] comp_def)
  finally show ?thesis by simp
qed

lemma sma_values:
  assumes "0 < p" and "p \<le> length prices"
  shows "sma prices p =
           Inr (replicate (p - 1) None @
                map (\<lambda>k. Some (mean (take p (drop k prices)))) [0..<length prices - p + 1])"
proof -
  have ne: "prices \<noteq> []" using assms by auto
  have "map (\<lambda>k. sum_list (map (\<lambda>j. prices ! (k + j) * replicate p (1 / real p) ! (p - 1 - j)) [0..<p]))
            [0..<length prices - p + 1]
        = map (\<lambda>k. mean (take p (drop k prices))) [0..<length prices - p + 1]"
  proof (rule map_cong [OF refl])
    fix k assume "k \<in> set [0..<length prices - p + 1]"
    then have kp: "k + p \<le> length prices" using assms by auto
    have "map (\<lambda>j. prices ! (k + j) * replicate p (1 / real p) ! (p - 1 - j)) [0..<p]
          = map (\<lambda>j. prices ! (k + j) * (1 / real p)) [0..<p]"
      using assms by (intro map_cong [OF refl]) auto
    then have "sum_list (map (\<lambda>j. prices ! (k + j) * replicate p (1 / real p) ! (p - 1 - j)) [0..<p])
               = sum_list (map (\<lambda>j. prices ! (k + j) * (1 / real p)) [0..<p])"
      by (rule arg_cong)
    also have "\<dots> = sum_list (take p (drop k prices)) * (1 / real p)"
      by (rule sum_list_window [OF kp])
    also have "\<dots> = mean (take p (drop k prices))"
      using kp by (simp add: mean_def)
    finally show "sum_list (map (\<lambda>j. prices ! (k + j) * replicate p (1 / real p) ! (p - 1 - j)) [0..<p])
               = mean (take p (drop k prices))" .
  qed
  then show ?thesis
    using assms ne by (simp add: sma_def convolve_valid_def comp_def)
qed

text \<open>
  C8. For a period \<open>p \<ge> 1\<close>: when \<open>length prices \<ge> p\<close>, \<open>sma prices p\<close> returns a list
  as long as \<open>prices\<close> whose first \<open>p - 1\<close> entries are \<open>None\<close> and whose entry at every later
  index \<open>i\<close> is the arithmetic mean of the \<open>p\<close> prices ending at \<open>i\<close>; when
  \<open>length prices < p\<close>, it returns \<open>length prices\<close> times \<open>None\<close>.
\<close>

theorem sma_shape:
  assumes "0 < p"
  shows "(p \<le> length prices \<longrightarrow>
            (\<exists>r. sma prices p = Inr r \<and> length r = length prices
                 \<and> (\<forall>i < p - 1. r ! i = None)
                 \<and> (\<forall>i. p - 1 \<le> i \<and> i < length prices \<longrightarrow>
                        r ! i = Some (mean (take p (drop (i + 1 - p) prices))))))
       \<and> (length prices < p \<longrightarrow> sma prices p = Inr (replicate (length prices) None))"
proof (intro conjI impI)
  assume le: "p \<le> length prices"
  let ?r = "replicate (p - 1) None @
            map (\<lambda>k. Some (mean (take p (drop k prices)))) [0..<length prices - p + 1]"
  have eq: "sma prices p = Inr ?r" using sma_values [OF assms le] .
  have len: "length ?r = length prices" using assms le by simp
  have pad: "\<forall>i < p - 1. ?r ! i = None" by (simp add: nth_append)
  have vals: "\<forall>i. p - 1 \<le> i \<and> i < length prices \<longrightarrow>
                 ?r ! i = Some (mean (take p (drop (i + 1 - p) prices)))"
  proof (intro allI impI)
    fix i assume i: "p - 1 \<le> i \<and> i < length prices"
    then have "i - (p - 1) < length prices - p + 1" using assms le by arith
    moreover have "i - (p - 1) = i + 1 - p" using assms i by arith
    ultimately show "?r ! i = Some (mean (take p (drop (i + 1 - p) prices)))"
      using i by (simp add: nth_append del: upt_Suc)
  qed
  show "\<exists>r. sma prices p = Inr r \<and> length r = length prices
           \<and> (\<forall>i < p - 1. r ! i = None)
           \<and> (\<forall>i. p - 1 \<le> i \<and> i < length prices \<longrightarrow>
                  r ! i = Some (mean (take p (drop (i + 1 - p) prices))))"
    using eq len pad vals by blast
next
  assume "length prices < p"
  then show "sma prices p = Inr (replicate (length prices) None)"
    by (simp add: sma_def)
qed

theorem sma_shape_witness:
  "sma [10, 20, 30, 40] 3 = Inr [None, None, Some 20, Some 30]
   \<and> sma [10, 11] 5 = Inr [None, None]"
proof -
  have a: "sma [10, 20, 30, 40] 3 = Inr [None, None, Some 20, Some 30]"
    using sma_shape [of 3 "[10, 20, 30, 40]"]
    by (simp add: sma_def convolve_valid_def mean_def upt_rec numeral_3_eq_3)
  have b: "sma [10, 11] 5 = Inr [None, None]"
    using sma_shape [of 5 "[10, 11]"] by (simp add: numeral_2_eq_2)
  show ?thesis using a b by simp
qed

lemma sum_list_zeros: "(\<forall>x \<in> set ys. x = 0) \<Longrightarrow> sum_list ys = (0::real)"
  by (induction ys) auto

lemma wilder_zeros:
  "(\<forall>i < length xs. xs ! i = 0) \<Longrightarrow> p + k \<le> length xs \<Longrightarrow> wilder xs p k = 0"
proof (induction k)
  case 0
  have "\<forall>x \<in> set (take p xs). x = 0"
    using 0 by (metis in_set_conv_nth in_set_takeD)
  then have "sum_list (take p xs) = 0" by (rule sum_list_zeros)
  then show ?case by (simp add: mean_def)
next
  case (Suc k)
  then show ?case by simp
qed

lemma rsi_value_zero_loss: "rsi_value g 0 = 0"
  by (simp add: rsi_value_def rs_of_def)

lemma rsi_no_losses:
  assumes p: "0 < p" and len: "p + 1 \<le> length prices"
    and mono: "\<forall>i. Suc i < length prices \<longrightarrow> prices ! i \<le> prices ! Suc i"
  shows "rsi prices p = replicate p None @ replicate (length prices - p) (Some 0)"
proof -
  let ?n = "length prices"
  let ?ls = "losses_of (diff prices)"
  have lz: "\<forall>i < length ?ls. ?ls ! i = 0"
  proof (intro allI impI)
    fix i assume "i < length ?ls"
    then have i: "Suc i < length prices" by (simp add: losses_of_def diff_def)
    then have "prices ! i \<le> prices ! Suc i" using mono by blast
    then show "?ls ! i = 0" using i by (simp add: losses_of_def diff_def)
  qed
  have ll: "length ?ls = ?n - 1" by (simp add: losses_of_def diff_def)
  have al: "avg_array ?ls p ?n = replicate ?n 0"
  proof (rule nth_equalityI)
    show "length (avg_array ?ls p ?n) = length (replicate ?n (0::real))"
      by (simp add: avg_array_def)
  next
    fix i assume "i < length (avg_array ?ls p ?n)"
    then have i: "i < ?n" by (simp add: avg_array_def)
    have "p \<le> i \<Longrightarrow> wilder ?ls p (i - p) = 0"
      using i ll by (intro wilder_zeros [OF lz]) auto
    then show "avg_array ?ls p ?n ! i = replicate ?n 0 ! i"
      using i by (auto simp: avg_array_def)
  qed
  have "map2 rsi_value (avg_array (gains_of (diff prices)) p ?n) (replicate ?n 0) = replicate ?n 0"
    by (rule nth_equalityI) (auto simp: avg_array_def rsi_value_zero_loss)
  then show ?thesis
    using len al by (simp add: rsi_def Let_def)
qed

text \<open>
  C4. The claim: where the smoothed average loss is zero, RSI is 100 if the average gain is
  positive and 0 if it is zero too. The code selects \<open>RS = 0\<close> whenever the average loss is
  zero (\<open>rsi_value_zero_loss\<close>), so RSI is 0 in both cases. On the strictly rising series
  \<open>1, 2, \<dots>, 29\<close> of the repository's test \<^verbatim>\<open>test_rsi_uptrend\<close>, which expects every
  defined value above 70, every defined value is 0.
\<close>

theorem rsi_uptrend_is_zero:
  "rsi (map real [1..<30]) 14 = replicate 14 None @ replicate 15 (Some 0)"
proof -
  have "rsi (map real [1..<30]) 14
        = replicate 14 None @ replicate (length (map real [1..<30]) - 14) (Some 0)"
    by (rule rsi_no_losses) (auto simp: nth_append)
  then show ?thesis by simp
qed

lemma ema_length: "ema d p = Inr e \<Longrightarrow> length e = length d"
  by (auto simp: ema_def split: if_splits)

text \<open>
  C9. For positive periods, at every index where the MACD line and the signal line returned
  by \<open>macd\<close> are both defined, the histogram is defined and equals the MACD-line value minus
  the signal-line value (exactly, hence within any tolerance).
\<close>

theorem macd_histogram:
  assumes "0 < fast" and "0 < slow" and "0 < signal"
    and "macd prices fast slow signal = Inr (m, s, h)"
    and "i < length m" and "i < length s"
    and "m ! i = Some a" and "s ! i = Some b"
  shows "i < length h \<and> h ! i = Some (a - b)"
proof (cases "length prices < slow")
  case True
  then have "m = replicate (length prices) None"
    using assms(4) by (simp add: macd_def Let_def)
  then show ?thesis using assms(5,7) by simp
next
  case False
  then obtain ef es sl where
    ef: "ema prices fast = Inr ef" and es: "ema prices slow = Inr es"
    and sl: "ema (map2 (-) ef es) signal = Inr sl"
    and m: "m = replicate (slow - 1) None @ map Some (drop (slow - 1) (map2 (-) ef es))"
    and s: "s = replicate (slow + signal - 1) None @ map Some (drop (slow + signal - 1) sl)"
    and h: "h = replicate (slow + signal - 1) None @
                map Some (drop (slow + signal - 1) (map2 (-) (map2 (-) ef es) sl))"
    using assms(4) by (auto simp: macd_def Let_def split: sum.splits)
  let ?ml = "map2 (-) ef es"
  let ?mp = "slow + signal - 1"
  have lens: "length ef = length prices" "length es = length prices" "length sl = length prices"
    using ema_length [OF ef] ema_length [OF es] ema_length [OF sl] by auto
  have ige: "?mp \<le> i"
    using assms(8) s by (cases "i < ?mp") (auto simp: nth_append)
  have ilt: "i < length prices"
    using assms(6) ige s lens by auto
  have sge: "slow - 1 \<le> i" using ige by arith
  have b: "b = sl ! i"
    using assms(8) s ige ilt lens by (auto simp: nth_append)
  have a: "a = ?ml ! i"
    using assms(7) m sge ilt lens by (auto simp: nth_append)
  have "h ! i = Some (?ml ! i - sl ! i)"
    using h ige ilt lens by (auto simp: nth_append)
  moreover have "i < length h" using h ige ilt lens by auto
  ultimately show ?thesis using a b by simp
qed

theorem macd_histogram_witness:
  "macd [1, 2, 4, 8, 16] 1 2 2 =
     Inr ([None, Some (1 / 2), Some (5 / 6), Some (29 / 18), Some (173 / 54)],
          [None, None, None, Some (145 / 108), Some (31 / 12)],
          [None, None, None, Some (29 / 108), Some (67 / 108)]) \<and>
   [None, None, None, Some (29 / 108), Some (67 / (108::real))] ! 3 = Some (29 / 18 - 145 / 108)"
proof -
  have e: "macd [1, 2, 4, 8, 16] 1 2 2 =
     Inr ([None, Some (1 / 2), Some (5 / 6), Some (29 / 18), Some (173 / 54)],
          [None, None, None, Some (145 / 108), Some (31 / 12)],
          [None, None, None, Some (29 / 108), Some (67 / 108)])"
    by (simp add: macd_def ema_def Let_def mean_def upt_rec numeral_2_eq_2 numeral_3_eq_3 eval_nat_numeral)
  show ?thesis
    using e macd_histogram [OF _ _ _ e, of 3 "29 / 18" "145 / 108"] by simp
qed

section \<open>Results on the kill-zone detector\<close>

lemma create_zone_type:
  "create_kill_zone_info z a t = Inr info \<Longrightarrow>
     zone_type info = z \<and> is_active info = a
     \<and> (a \<longrightarrow> optimal_for_entries info = fst (zone_profile z))"
  by (auto simp: create_kill_zone_info_def Let_def split: if_splits option.splits sum.splits prod.splits)

lemma asian_info:
  assumes "get_current_kill_zone ts = Inr info" and "zone_type info = ASIAN_SESSION"
  shows "is_active info \<and> \<not> optimal_for_entries info"
proof -
  obtain t where t: "est_time ts = Inr t"
    using assms(1) by (auto simp: get_current_kill_zone_def split: sum.splits)
  show ?thesis
  proof (cases "find (\<lambda>(zone, (start, end)). is_time_in_window t start end) KILL_ZONES")
    case None
    then have "create_kill_zone_info OFF_HOURS False t = Inr info"
      using assms(1) t by (simp add: get_current_kill_zone_def)
    then show ?thesis using create_zone_type assms(2) by fastforce
  next
    case (Some zw)
    then have "create_kill_zone_info (fst zw) True t = Inr info"
      using assms(1) t by (simp add: get_current_kill_zone_def split: prod.splits)
    from create_zone_type [OF this] show ?thesis
      using assms(2) by (simp add: zone_profile_def)
  qed
qed

text \<open>
  C6, as amended. For a timestamp that falls in the Asian session, \<open>should_trade_signal\<close>
  refuses exactly the strengths below 70: the first row of its decision table, a strength of
  at least 70 inside any active zone, is tried before the Asian-session row and returns True.
\<close>

theorem asian_session_trade:
  assumes "get_current_kill_zone ts = Inr info" and "zone_type info = ASIAN_SESSION"
  shows "should_trade_signal ts s =
           Inr (if s \<ge> 70 then (True, HighStrengthInZone ASIAN_SESSION)
                else (False, AvoidAsianSession))"
  using assms asian_info [OF assms] by (simp add: should_trade_signal_def)

lemma kz_asian_example:
  "get_current_kill_zone 1700013600 =
     Inr \<lparr>zone_type = ASIAN_SESSION, is_active = True, time_until_next = None,
          time_remaining = Some 180, session = AFTER_HOURS, optimal_for_entries = False,
          volatility_expected = ''low'',
          kz_rationale = ''Asian session - lower volume, consolidation likely''\<rparr>"
  by (simp add: get_current_kill_zone_def est_time_def KILL_ZONES_def time_def
      is_time_in_window_def create_kill_zone_info_def Let_def get_session_type_def
      zone_profile_def minutes_between_def py_int_def)

theorem asian_session_trade_witness:
  "should_trade_signal 1700013600 60 = Inr (False, AvoidAsianSession)"
  using asian_session_trade [OF kz_asian_example, of 60] by simp

text \<open>
  C6 as stated fails: at 21:00 Eastern (timestamp 1700013600), inside the Asian session, a
  signal of strength 70 is accepted.
\<close>

theorem asian_session_high_strength_trades:
  "map_sum id zone_type (get_current_kill_zone 1700013600) = Inr ASIAN_SESSION
   \<and> should_trade_signal 1700013600 70 = Inr (True, HighStrengthInZone ASIAN_SESSION)"
  by (simp add: kz_asian_example should_trade_signal_def)

section \<open>Results on the ICT detector\<close>

lemma breaker_step_length: "length (snd (breaker_step p acc k)) = length (snd acc)"
  by (simp add: breaker_step_def Let_def)

lemma breaker_step_other: "j \<noteq> k \<Longrightarrow> snd (breaker_step p acc k) ! j = snd acc ! j"
  by (simp add: breaker_step_def Let_def)

lemma breaker_step_results: "set (fst acc) \<subseteq> set (fst (breaker_step p acc k))"
  by (auto simp: breaker_step_def Let_def)

lemma breaker_fold_length: "length (snd (foldl (breaker_step p) acc ks)) = length (snd acc)"
  by (induction ks arbitrary: acc) (simp_all add: breaker_step_length)

lemma breaker_fold_other:
  "j \<notin> set ks \<Longrightarrow> snd (foldl (breaker_step p) acc ks) ! j = snd acc ! j"
  by (induction ks arbitrary: acc) (simp_all add: breaker_step_other)

lemma breaker_fold_results: "set (fst acc) \<subseteq> set (fst (foldl (breaker_step p) acc ks))"
proof (induction ks arbitrary: acc)
  case Nil
  show ?case by simp
next
  case (Cons k ks)
  have "set (fst acc) \<subseteq> set (fst (breaker_step p acc k))" by (rule breaker_step_results)
  also have "\<dots> \<subseteq> set (fst (foldl (breaker_step p) (breaker_step p acc k) ks))" by (rule Cons.IH)
  finally show ?case by simp
qed

lemma breaker_step_hit:
  assumes "k < length (snd acc)" and "\<not> broken (snd acc ! k)"
    and "ob_type (snd acc ! k) = Bearish" and "p > ob_high (snd acc ! k)"
  shows "snd (breaker_step p acc k) ! k = (snd acc ! k)\<lparr>broken := True, breaker_confirmed := True\<rparr>
         \<and> bullish_breaker_result p (snd acc ! k) \<in> set (fst (breaker_step p acc k))"
  using assms by (simp add: breaker_step_def Let_def)

lemma breaker_fold_hit:
  assumes k: "a \<le> k" "k < length blocks"
    and blk: "\<not> broken (blocks ! k)" "ob_type (blocks ! k) = Bearish" "p > ob_high (blocks ! k)"
  shows "snd (foldl (breaker_step p) ([], blocks) [a..<length blocks]) ! k
           = (blocks ! k)\<lparr>broken := True, breaker_confirmed := True\<rparr>
         \<and> bullish_breaker_result p (blocks ! k)
             \<in> set (fst (foldl (breaker_step p) ([], blocks) [a..<length blocks]))"
proof -
  let ?n = "length blocks"
  let ?acc1 = "foldl (breaker_step p) ([], blocks) [a..<k]"
  let ?acc2 = "breaker_step p ?acc1 k"
  let ?acc3 = "foldl (breaker_step p) ?acc2 [Suc k..<?n]"
  have split: "[a..<?n] = [a..<k] @ k # [Suc k..<?n]"
    using k by (metis le_add_diff_inverse less_imp_le_nat upt_add_eq_append upt_conv_Cons)
  have fold: "foldl (breaker_step p) ([], blocks) [a..<?n] = ?acc3"
    by (simp add: split)
  have same: "snd ?acc1 ! k = blocks ! k"
    using breaker_fold_other [of k "[a..<k]" p "([], blocks)"] by simp
  have len: "k < length (snd ?acc1)"
    using k by (simp add: breaker_fold_length)
  have hit: "snd ?acc2 ! k = (blocks ! k)\<lparr>broken := True, breaker_confirmed := True\<rparr>
             \<and> bullish_breaker_result p (blocks ! k) \<in> set (fst ?acc2)"
    using breaker_step_hit [OF len] blk same by simp
  have keep: "snd ?acc3 ! k = snd ?acc2 ! k"
    using breaker_fold_other [of k "[Suc k..<?n]" p ?acc2] by simp
  have sub: "set (fst ?acc2) \<subseteq> set (fst ?acc3)" by (rule breaker_fold_results)
  show ?thesis using fold hit keep sub by auto
qed

text \<open>
  C5. If the detector holds, among its ten most recent order blocks, an unbroken block of
  type bearish with high 110 and low 108, and the breaker scan runs on at least three
  candles whose last close is 111, then afterwards that block, at the same place of the
  list, has \<open>broken\<close> and \<open>breaker_confirmed\<close> set, and the scan returns a
  \<open>BULLISH_BREAKER\<close> signal of strength 85 and confidence 90 (at price 111, with the
  block as entry zone).
\<close>

theorem breaker_block_transition:
  assumes "3 \<le> length recent_candles" and "candle_c (last recent_candles) = 111"
    and "k < length (order_blocks self)" and "length (order_blocks self) - 10 \<le> k"
    and "ob_type (order_blocks self ! k) = Bearish"
    and "ob_high (order_blocks self ! k) = 110" and "ob_low (order_blocks self ! k) = 108"
    and "\<not> broken (order_blocks self ! k)"
  shows "\<exists>results self'.
           detect_breaker_blocks recent_candles self = (results, self')
           \<and> order_blocks self' ! k
               = (order_blocks self ! k)\<lparr>broken := True, breaker_confirmed := True\<rparr>
           \<and> (\<exists>r \<in> set results. signal_type r = BULLISH_BREAKER \<and> strength r = 85
                 \<and> confidence r = 90 \<and> price r = 111 \<and> entry_zone r = (108, 110))"
proof -
  let ?blocks = "order_blocks self"
  let ?r = "foldl (breaker_step 111) ([], ?blocks) [length ?blocks - 10..<length ?blocks]"
  have d: "detect_breaker_blocks recent_candles self = (fst ?r, self\<lparr>order_blocks := snd ?r\<rparr>)"
    using assms(1,2) by (simp add: detect_breaker_blocks_def Let_def)
  have hit: "snd ?r ! k = (?blocks ! k)\<lparr>broken := True, breaker_confirmed := True\<rparr>
             \<and> bullish_breaker_result 111 (?blocks ! k) \<in> set (fst ?r)"
    using breaker_fold_hit [OF assms(4) assms(3) assms(8) assms(5), of 111] assms(6) by simp
  have "signal_type (bullish_breaker_result 111 (?blocks ! k)) = BULLISH_BREAKER
        \<and> strength (bullish_breaker_result 111 (?blocks ! k)) = 85
        \<and> confidence (bullish_breaker_result 111 (?blocks ! k)) = 90
        \<and> price (bullish_breaker_result 111 (?blocks ! k)) = 111
        \<and> entry_zone (bullish_breaker_result 111 (?blocks ! k)) = (108, 110)"
    using assms(6,7) by (simp add: bullish_breaker_result_def)
  then show ?thesis using d hit by auto
qed

theorem breaker_block_transition_witness:
  "detect_breaker_blocks [flat_candle 111 0, flat_candle 111 1, flat_candle 111 2]
     \<lparr>order_blocks = [\<lparr>ob_high = 110, ob_low = 108, ob_timestamp = 0, ob_type = Bearish,
                        confirmed = False, broken = False, breaker_confirmed = False\<rparr>],
      fair_value_gaps = [], market_structure = initial_market_structure\<rparr>
   = ([bullish_breaker_result 111
         \<lparr>ob_high = 110, ob_low = 108, ob_timestamp = 0, ob_type = Bearish,
          confirmed = False, broken = False, breaker_confirmed = False\<rparr>],
      \<lparr>order_blocks = [\<lparr>ob_high = 110, ob_low = 108, ob_timestamp = 0, ob_type = Bearish,
                        confirmed = False, broken = True, breaker_confirmed = True\<rparr>],
       fair_value_gaps = [], market_structure = initial_market_structure\<rparr>)"
  using breaker_block_transition
    [of "[flat_candle 111 0, flat_candle 111 1, flat_candle 111 2]" 0
        "\<lparr>order_blocks = [\<lparr>ob_high = 110, ob_low = 108, ob_timestamp = 0, ob_type = Bearish,
                        confirmed = False, broken = False, breaker_confirmed = False\<rparr>],
         fair_value_gaps = [], market_structure = initial_market_structure\<rparr>"]
  by (simp add: detect_breaker_blocks_def Let_def breaker_step_def flat_candle_def)

subsection \<open>What a call reads of the instance\<close>

text \<open>The two detectors of zones only append.\<close>

lemma foldl_appends_blocks:
  assumes "\<And>s k. order_blocks (f s k) = order_blocks s @ order_blocks (f new_ICTStrategies k)"
  shows "order_blocks (foldl f s ks) = order_blocks s @ order_blocks (foldl f new_ICTStrategies ks)"
proof (induction ks arbitrary: s)
  case Nil
  show ?case by (simp add: new_ICTStrategies_def)
next
  case (Cons k ks)
  have "order_blocks (foldl f (f s k) ks)
        = order_blocks (f s k) @ order_blocks (foldl f new_ICTStrategies ks)"
    by (rule Cons.IH)
  moreover have "order_blocks (foldl f (f new_ICTStrategies k) ks)
        = order_blocks (f new_ICTStrategies k) @ order_blocks (foldl f new_ICTStrategies ks)"
    by (rule Cons.IH)
  ultimately show ?case using assms [of s k] by simp
qed

lemma detect_order_blocks_appends:
  "order_blocks (detect_order_blocks df s)
     = order_blocks s @ order_blocks (detect_order_blocks df new_ICTStrategies)"
  unfolding detect_order_blocks_def Let_def
  by (rule foldl_appends_blocks) (simp add: new_ICTStrategies_def)

lemma foldl_keeps_blocks:
  assumes "\<And>s k. order_blocks (f s k) = order_blocks s"
  shows "order_blocks (foldl f s ks) = order_blocks s"
  by (induction ks arbitrary: s) (simp_all add: assms)

lemma detect_fair_value_gaps_blocks:
  "order_blocks (detect_fair_value_gaps df s) = order_blocks s"
  unfolding detect_fair_value_gaps_def
  by (rule foldl_keeps_blocks) (simp add: Let_def)

subsection \<open>The structure scan reads the blocks through the two BOS checks only\<close>

lemma check_bullish_bos_cong:
  assumes "(order_blocks s = []) = (order_blocks s' = [])"
    and "py_max (map ob_high (filter (\<lambda>b. ob_type b = Bearish) (order_blocks s)))
         = py_max (map ob_high (filter (\<lambda>b. ob_type b = Bearish) (order_blocks s')))"
    and "last_swing_high (market_structure s) = last_swing_high (market_structure s')"
  shows "check_bullish_bos s = check_bullish_bos s'"
  using assms by (auto simp: check_bullish_bos_def split: sum.splits)

lemma check_bearish_bos_cong:
  assumes "(order_blocks s = []) = (order_blocks s' = [])"
    and "py_min (map ob_low (filter (\<lambda>b. ob_type b = Bullish) (order_blocks s)))
         = py_min (map ob_low (filter (\<lambda>b. ob_type b = Bullish) (order_blocks s')))"
    and "last_swing_low (market_structure s) = last_swing_low (market_structure s')"
  shows "check_bearish_bos s = check_bearish_bos s'"
  using assms by (auto simp: check_bearish_bos_def split: sum.splits)

lemma structure_step_blocks:
  "structure_step r i (rs, s) = Inr (rs2, s2) \<Longrightarrow> order_blocks s2 = order_blocks s"
  by (auto simp: structure_step_def Let_def split: if_splits sum.splits)

lemma structure_step_cong:
  assumes e: "(order_blocks s = []) = (order_blocks s' = [])"
    and mx: "py_max (map ob_high (filter (\<lambda>b. ob_type b = Bearish) (order_blocks s)))
         = py_max (map ob_high (filter (\<lambda>b. ob_type b = Bearish) (order_blocks s')))"
    and mn: "py_min (map ob_low (filter (\<lambda>b. ob_type b = Bullish) (order_blocks s)))
         = py_min (map ob_low (filter (\<lambda>b. ob_type b = Bullish) (order_blocks s')))"
  shows "map_sum id fst (structure_step r i (rs, s)) = map_sum id fst (structure_step r i (rs, s'))"
proof -
  have hi: "check_bullish_bos (s\<lparr>market_structure := (market_structure s)\<lparr>last_swing_high := x, swing_high_timestamp := t\<rparr>\<rparr>)
          = check_bullish_bos (s'\<lparr>market_structure := (market_structure s')\<lparr>last_swing_high := x, swing_high_timestamp := t\<rparr>\<rparr>)"
    for x t
    by (rule check_bullish_bos_cong) (use e mx in simp_all)
  have lo: "check_bearish_bos (s\<lparr>market_structure := (market_structure s)\<lparr>last_swing_low := x, swing_low_timestamp := t\<rparr>\<rparr>)
          = check_bearish_bos (s'\<lparr>market_structure := (market_structure s')\<lparr>last_swing_low := x, swing_low_timestamp := t\<rparr>\<rparr>)"
    for x t
    by (rule check_bearish_bos_cong) (use e mn in simp_all)
  show ?thesis
    by (simp add: structure_step_def Let_def hi lo split: sum.splits)
qed

lemma structure_fold_cong:
  assumes e: "(order_blocks s = []) = (order_blocks s' = [])"
    and mx: "py_max (map ob_high (filter (\<lambda>b. ob_type b = Bearish) (order_blocks s)))
         = py_max (map ob_high (filter (\<lambda>b. ob_type b = Bearish) (order_blocks s')))"
    and mn: "py_min (map ob_low (filter (\<lambda>b. ob_type b = Bullish) (order_blocks s)))
         = py_min (map ob_low (filter (\<lambda>b. ob_type b = Bullish) (order_blocks s')))"
  shows "map_sum id fst (fold_err (structure_step r) ks (rs, s))
         = map_sum id fst (fold_err (structure_step r) ks (rs, s'))"
  using assms
proof (induction ks arbitrary: rs s s')
  case Nil
  show ?case by simp
next
  case (Cons k ks)
  have step: "map_sum id fst (structure_step r k (rs, s)) = map_sum id fst (structure_step r k (rs, s'))"
    by (rule structure_step_cong) (use Cons.prems in simp_all)
  show ?case
  proof (cases "structure_step r k (rs, s)")
    case (Inl err)
    then have "structure_step r k (rs, s') = Inl err"
      using step by (cases "structure_step r k (rs, s')") auto
    then show ?thesis using Inl by simp
  next
    case (Inr acc)
    obtain rs2 s2 where acc: "acc = (rs2, s2)" by (cases acc)
    obtain s2' where r': "structure_step r k (rs, s') = Inr (rs2, s2')"
      using step Inr acc by (cases "structure_step r k (rs, s')") auto
    have b: "order_blocks s2 = order_blocks s" "order_blocks s2' = order_blocks s'"
      using structure_step_blocks Inr acc r' by blast+
    have "map_sum id fst (fold_err (structure_step r) ks (rs2, s2))
          = map_sum id fst (fold_err (structure_step r) ks (rs2, s2'))"
      by (rule Cons.IH) (use Cons.prems b in simp_all)
    then show ?thesis using Inr acc r' unfolding id_def by simp
  qed
qed

lemma structure_fold_blocks:
  "fold_err (structure_step r) ks (rs, s) = Inr (rs2, s2) \<Longrightarrow> order_blocks s2 = order_blocks s"
proof (induction ks arbitrary: rs s)
  case Nil
  then show ?case by simp
next
  case (Cons k ks)
  then obtain rs1 s1 where a: "structure_step r k (rs, s) = Inr (rs1, s1)"
    and b: "fold_err (structure_step r) ks (rs1, s1) = Inr (rs2, s2)"
    by (auto split: sum.splits)
  show ?case using Cons.IH [OF b] structure_step_blocks [OF a] by simp
qed

lemma analyze_market_structure_blocks:
  "analyze_market_structure df s = Inr (rs, s2) \<Longrightarrow> order_blocks s2 = order_blocks s"
  by (auto simp: analyze_market_structure_def Let_def structure_fold_blocks split: if_splits)

lemma analyze_market_structure_cong:
  assumes "(order_blocks s = []) = (order_blocks s' = [])"
    and "py_max (map ob_high (filter (\<lambda>b. ob_type b = Bearish) (order_blocks s)))
         = py_max (map ob_high (filter (\<lambda>b. ob_type b = Bearish) (order_blocks s')))"
    and "py_min (map ob_low (filter (\<lambda>b. ob_type b = Bullish) (order_blocks s)))
         = py_min (map ob_low (filter (\<lambda>b. ob_type b = Bullish) (order_blocks s')))"
  shows "map_sum id fst (analyze_market_structure df s) = map_sum id fst (analyze_market_structure df s')"
  using structure_fold_cong [OF assms] by (simp add: analyze_market_structure_def Let_def)

subsection \<open>Maximum and minimum of a list written twice\<close>

lemma foldl_max_ge: "a \<le> foldl max a zs \<and> (\<forall>z \<in> set zs. z \<le> foldl max a zs)" for a :: real
proof (induction zs arbitrary: a)
  case Nil
  show ?case by simp
next
  case (Cons y ys)
  have "max a y \<le> foldl max (max a y) ys \<and> (\<forall>z \<in> set ys. z \<le> foldl max (max a y) ys)"
    by (rule Cons.IH)
  then show ?case by auto
qed

lemma foldl_max_absorb: "\<forall>z \<in> set zs. z \<le> a \<Longrightarrow> foldl max a zs = a" for a :: real
  by (induction zs) (simp_all add: max_absorb1)

lemma foldl_min_le: "foldl min a zs \<le> a \<and> (\<forall>z \<in> set zs. foldl min a zs \<le> z)" for a :: real
proof (induction zs arbitrary: a)
  case Nil
  show ?case by simp
next
  case (Cons y ys)
  have "foldl min (min a y) ys \<le> min a y \<and> (\<forall>z \<in> set ys. foldl min (min a y) ys \<le> z)"
    by (rule Cons.IH)
  then show ?case by auto
qed

lemma foldl_min_absorb: "\<forall>z \<in> set zs. a \<le> z \<Longrightarrow> foldl min a zs = a" for a :: real
  by (induction zs) (simp_all add: min_absorb1)

lemma py_max_twice: "py_max (xs @ xs) = py_max xs"
proof (cases xs)
  case Nil
  then show ?thesis by simp
next
  case (Cons y ys)
  have "foldl max (foldl max y ys) (y # ys) = foldl max y ys"
    by (rule foldl_max_absorb) (use foldl_max_ge [of y ys] in auto)
  then show ?thesis using Cons by (simp add: py_max_def)
qed

lemma py_min_twice: "py_min (xs @ xs) = py_min xs"
proof (cases xs)
  case Nil
  then show ?thesis by simp
next
  case (Cons y ys)
  have "foldl min (foldl min y ys) (y # ys) = foldl min y ys"
    by (rule foldl_min_absorb) (use foldl_min_le [of y ys] in auto)
  then show ?thesis using Cons by (simp add: py_min_def)
qed

subsection \<open>The breaker scan\<close>

text \<open>The scan changes the two flags only.\<close>

lemma map_update_same: "f (xs ! k) = v \<Longrightarrow> (map f xs)[k := v] = map f xs"
  by (cases "k < length xs") (simp_all add: list_update_same_conv list_update_beyond)

lemma breaker_step_keeps:
  "map ob_type (snd (breaker_step p acc k)) = map ob_type (snd acc)
   \<and> map ob_high (snd (breaker_step p acc k)) = map ob_high (snd acc)
   \<and> map ob_low (snd (breaker_step p acc k)) = map ob_low (snd acc)"
  by (auto simp: breaker_step_def Let_def map_update map_update_same)

lemma breaker_fold_keeps:
  "map ob_type (snd (foldl (breaker_step p) acc ks)) = map ob_type (snd acc)
   \<and> map ob_high (snd (foldl (breaker_step p) acc ks)) = map ob_high (snd acc)
   \<and> map ob_low (snd (foldl (breaker_step p) acc ks)) = map ob_low (snd acc)"
  by (induction ks arbitrary: acc) (simp_all add: breaker_step_keeps)

lemma filter_map_by_projections:
  assumes "map ob_type xs = map ob_type ys" and "map f xs = map f ys"
  shows "map f (filter (\<lambda>b. ob_type b = d) xs) = map f (filter (\<lambda>b. ob_type b = d) ys)"
  using assms
proof (induction xs arbitrary: ys)
  case Nil
  then show ?case by simp
next
  case (Cons x xs)
  then obtain y ys' where ys: "ys = y # ys'" by (cases ys) auto
  show ?case using Cons ys by auto
qed

text \<open>
  A block is settled for a price when the scan leaves it alone: it is broken, or the
  price has not traded through it.
\<close>

lemma breaker_step_noop:
  assumes "broken (snd acc ! k)
           \<or> \<not> ((ob_type (snd acc ! k) = Bearish \<and> p > ob_high (snd acc ! k))
                \<or> (ob_type (snd acc ! k) = Bullish \<and> p < ob_low (snd acc ! k)))"
  shows "breaker_step p acc k = acc"
  using assms by (auto simp: breaker_step_def Let_def)

lemma breaker_step_settles:
  assumes "k < length (snd acc)"
  shows "broken (snd (breaker_step p acc k) ! k)
         \<or> \<not> ((ob_type (snd (breaker_step p acc k) ! k) = Bearish
                  \<and> p > ob_high (snd (breaker_step p acc k) ! k))
              \<or> (ob_type (snd (breaker_step p acc k) ! k) = Bullish
                  \<and> p < ob_low (snd (breaker_step p acc k) ! k)))"
  using assms by (auto simp: breaker_step_def Let_def)

lemma breaker_step_stays_settled:
  assumes "j < length (snd acc)"
    and "broken (snd acc ! j)
           \<or> \<not> ((ob_type (snd acc ! j) = Bearish \<and> p > ob_high (snd acc ! j))
                \<or> (ob_type (snd acc ! j) = Bullish \<and> p < ob_low (snd acc ! j)))"
  shows "broken (snd (breaker_step p acc k) ! j)
         \<or> \<not> ((ob_type (snd (breaker_step p acc k) ! j) = Bearish
                  \<and> p > ob_high (snd (breaker_step p acc k) ! j))
              \<or> (ob_type (snd (breaker_step p acc k) ! j) = Bullish
                  \<and> p < ob_low (snd (breaker_step p acc k) ! j)))"
proof (cases "j = k")
  case True
  then show ?thesis using breaker_step_settles [of k acc p] assms(1) by simp
next
  case False
  then show ?thesis using assms(2) by (simp add: breaker_step_other)
qed

lemma breaker_fold_settles:
  assumes "\<forall>k \<in> set ks. k < length (snd acc)" and "j \<in> set ks"
  shows "broken (snd (foldl (breaker_step p) acc ks) ! j)
         \<or> \<not> ((ob_type (snd (foldl (breaker_step p) acc ks) ! j) = Bearish
                  \<and> p > ob_high (snd (foldl (breaker_step p) acc ks) ! j))
              \<or> (ob_type (snd (foldl (breaker_step p) acc ks) ! j) = Bullish
                  \<and> p < ob_low (snd (foldl (breaker_step p) acc ks) ! j)))"
  using assms
proof (induction ks arbitrary: acc rule: rev_induct)
  case Nil
  then show ?case by simp
next
  case (snoc k ks)
  let ?a = "foldl (breaker_step p) acc ks"
  have len: "length (snd ?a) = length (snd acc)" by (rule breaker_fold_length)
  have f: "foldl (breaker_step p) acc (ks @ [k]) = breaker_step p ?a k" by simp
  show ?case
  proof (cases "j = k")
    case True
    have "k < length (snd ?a)" using snoc.prems len by simp
    from breaker_step_settles [OF this, of p] show ?thesis using True f by simp
  next
    case False
    then have j: "j \<in> set ks" using snoc.prems by simp
    have jl: "j < length (snd ?a)" using snoc.prems j len by auto
    have "broken (snd ?a ! j)
         \<or> \<not> ((ob_type (snd ?a ! j) = Bearish \<and> p > ob_high (snd ?a ! j))
              \<or> (ob_type (snd ?a ! j) = Bullish \<and> p < ob_low (snd ?a ! j)))"
      by (rule snoc.IH) (use snoc.prems j in simp_all)
    from breaker_step_stays_settled [OF jl this, of k] show ?thesis using f by simp
  qed
qed

lemma breaker_fold_noop:
  assumes "\<forall>k \<in> set ks. broken (snd acc ! k)
           \<or> \<not> ((ob_type (snd acc ! k) = Bearish \<and> p > ob_high (snd acc ! k))
                \<or> (ob_type (snd acc ! k) = Bullish \<and> p < ob_low (snd acc ! k)))"
  shows "foldl (breaker_step p) acc ks = acc"
  using assms by (induction ks) (simp_all add: breaker_step_noop)

text \<open>Blocks in front of the scanned ones take no part.\<close>

lemma breaker_step_shift:
  assumes "k < length bs"
  shows "breaker_step p (rs, pre @ bs) (length pre + k)
         = (fst (breaker_step p (rs, bs) k), pre @ snd (breaker_step p (rs, bs) k))"
  using assms by (simp add: breaker_step_def Let_def list_update_append)

lemma breaker_fold_shift:
  assumes "\<forall>k \<in> set ks. k < length bs"
  shows "foldl (breaker_step p) (rs, pre @ bs) (map (\<lambda>k. length pre + k) ks)
         = (fst (foldl (breaker_step p) (rs, bs) ks),
            pre @ snd (foldl (breaker_step p) (rs, bs) ks))"
  using assms
proof (induction ks arbitrary: rs bs)
  case Nil
  show ?case by simp
next
  case (Cons k ks)
  let ?a = "breaker_step p (rs, bs) k"
  have k: "k < length bs" using Cons.prems by simp
  have len: "length (snd ?a) = length bs" using breaker_step_length [of p "(rs, bs)" k] by simp
  have "foldl (breaker_step p) (fst ?a, pre @ snd ?a) (map (\<lambda>k. length pre + k) ks)
        = (fst (foldl (breaker_step p) (fst ?a, snd ?a) ks),
           pre @ snd (foldl (breaker_step p) (fst ?a, snd ?a) ks))"
    by (rule Cons.IH) (use Cons.prems len in simp)
  then show ?case using breaker_step_shift [OF k, of p rs pre] by simp
qed

lemma map_add_upt_left: "map (\<lambda>k. n + k) [a..<b] = [n + a..<n + b]"
  by (induction b) simp_all

lemma second_window:
  "[2 * n - 10..<2 * n] = [2 * n - 10..<n] @ map (\<lambda>k. n + k) [n - 10..<n]"
proof (cases "10 \<le> n")
  case True
  then have "[2 * n - 10..<n] = []" by simp
  moreover have "n + (n - 10) = 2 * n - 10" using True by simp
  ultimately show ?thesis by (simp add: map_add_upt_left mult_2)
next
  case False
  then have "[2 * n - 10..<n + n] = [2 * n - 10..<n] @ [n..<n + n]"
    by (intro upt_add_eq_append) simp
  then show ?thesis using False by (simp add: map_add_upt_left mult_2)
qed

lemma breaker_second_scan:
  fixes blocks :: "OrderBlock list" and p :: real
  defines "n \<equiv> length blocks"
  defines "first \<equiv> foldl (breaker_step p) ([], blocks) [n - 10..<n]"
  shows "fst (foldl (breaker_step p) ([], snd first @ blocks) [2 * n - 10..<2 * n]) = fst first"
proof -
  have len: "length (snd first) = n"
    unfolding first_def n_def by (simp add: breaker_fold_length)
  have inwin: "\<forall>k \<in> set [n - 10..<n]. k < length (snd ([]::ICTSignalResult list, blocks))"
    by (simp add: n_def)
  have settled: "\<forall>k \<in> set [2 * n - 10..<n].
      broken (snd ([]::ICTSignalResult list, snd first @ blocks) ! k)
      \<or> \<not> ((ob_type (snd ([]::ICTSignalResult list, snd first @ blocks) ! k) = Bearish
               \<and> p > ob_high (snd ([]::ICTSignalResult list, snd first @ blocks) ! k))
           \<or> (ob_type (snd ([]::ICTSignalResult list, snd first @ blocks) ! k) = Bullish
               \<and> p < ob_low (snd ([]::ICTSignalResult list, snd first @ blocks) ! k)))"
  proof
    fix k assume "k \<in> set [2 * n - 10..<n]"
    then have k: "k \<in> set [n - 10..<n]" "k < n" by auto
    have "(snd first @ blocks) ! k = snd first ! k"
      using k len by (simp add: nth_append)
    moreover have "broken (snd first ! k)
        \<or> \<not> ((ob_type (snd first ! k) = Bearish \<and> p > ob_high (snd first ! k))
             \<or> (ob_type (snd first ! k) = Bullish \<and> p < ob_low (snd first ! k)))"
      unfolding first_def by (rule breaker_fold_settles [OF inwin k(1)])
    ultimately show "broken (snd ([]::ICTSignalResult list, snd first @ blocks) ! k)
      \<or> \<not> ((ob_type (snd ([]::ICTSignalResult list, snd first @ blocks) ! k) = Bearish
               \<and> p > ob_high (snd ([]::ICTSignalResult list, snd first @ blocks) ! k))
           \<or> (ob_type (snd ([]::ICTSignalResult list, snd first @ blocks) ! k) = Bullish
               \<and> p < ob_low (snd ([]::ICTSignalResult list, snd first @ blocks) ! k)))"
      by simp
  qed
  have skip: "foldl (breaker_step p) ([], snd first @ blocks) [2 * n - 10..<n]
              = ([], snd first @ blocks)"
    by (rule breaker_fold_noop [OF settled])
  have shift: "foldl (breaker_step p) ([], snd first @ blocks)
                 (map (\<lambda>k. length (snd first) + k) [n - 10..<n])
               = (fst (foldl (breaker_step p) ([], blocks) [n - 10..<n]),
                  snd first @ snd (foldl (breaker_step p) ([], blocks) [n - 10..<n]))"
    by (rule breaker_fold_shift) (simp add: n_def)
  have "foldl (breaker_step p) ([], snd first @ blocks) [2 * n - 10..<2 * n]
        = foldl (breaker_step p) ([], snd first @ blocks) (map (\<lambda>k. n + k) [n - 10..<n])"
    using skip by (simp add: second_window)
  then show ?thesis using shift len by (simp add: first_def)
qed

lemma detect_breaker_blocks_scan:
  assumes "\<not> length rc < 3"
  shows "detect_breaker_blocks rc s
         = (fst (foldl (breaker_step (candle_c (last rc))) ([], order_blocks s)
                   [length (order_blocks s) - 10..<length (order_blocks s)]),
            s\<lparr>order_blocks :=
                 snd (foldl (breaker_step (candle_c (last rc))) ([], order_blocks s)
                   [length (order_blocks s) - 10..<length (order_blocks s)])\<rparr>)"
  using assms by (simp add: detect_breaker_blocks_def Let_def)

lemma detect_breaker_blocks_cong:
  "order_blocks s = order_blocks s' \<Longrightarrow>
     fst (detect_breaker_blocks rc s) = fst (detect_breaker_blocks rc s')"
  by (simp add: detect_breaker_blocks_def Let_def)

lemma analyze_candles_long:
  assumes "\<not> length c < 50"
  shows "analyze_candles c s =
     (case analyze_market_structure c (detect_fair_value_gaps c (detect_order_blocks c s)) of
        Inl e \<Rightarrow> Inl e
      | Inr (bos, s3) \<Rightarrow>
          Inr (rank_and_filter_signals
                 (bos @ fst (detect_breaker_blocks (tail 20 c) s3) @ analyze_market_maker_model c),
               snd (detect_breaker_blocks (tail 20 c) s3)))"
  using assms by (simp add: analyze_candles_def Let_def split: sum.splits prod.splits)

lemma analyze_candles_short:
  "length c < 50 \<Longrightarrow> analyze_candles c s = Inr ([], s)"
  by (simp add: analyze_candles_def)

text \<open>The signals of a call depend on the instance through its order blocks only.\<close>

lemma analyze_candles_reads_blocks_only:
  assumes "order_blocks s = order_blocks s'"
  shows "map_sum id fst (analyze_candles c s) = map_sum id fst (analyze_candles c s')"
proof (cases "length c < 50")
  case True
  then show ?thesis by (simp add: analyze_candles_short)
next
  case False
  let ?s2 = "detect_fair_value_gaps c (detect_order_blocks c s)"
  let ?s2' = "detect_fair_value_gaps c (detect_order_blocks c s')"
  have b: "order_blocks ?s2 = order_blocks ?s2'"
    using assms detect_order_blocks_appends [of c s] detect_order_blocks_appends [of c s']
    by (simp add: detect_fair_value_gaps_blocks)
  have ms: "map_sum id fst (analyze_market_structure c ?s2)
            = map_sum id fst (analyze_market_structure c ?s2')"
    by (rule analyze_market_structure_cong) (simp_all add: b)
  show ?thesis
  proof (cases "analyze_market_structure c ?s2")
    case (Inl e)
    then have "analyze_market_structure c ?s2' = Inl e"
      using ms by (cases "analyze_market_structure c ?s2'") auto
    then show ?thesis using Inl False by (simp add: analyze_candles_long)
  next
    case (Inr a)
    obtain bos s3 where a: "a = (bos, s3)" by (cases a)
    obtain s3' where r': "analyze_market_structure c ?s2' = Inr (bos, s3')"
      using ms Inr a by (cases "analyze_market_structure c ?s2'") auto
    have "order_blocks s3 = order_blocks s3'"
      using analyze_market_structure_blocks Inr a r' b by metis
    then have "fst (detect_breaker_blocks (tail 20 c) s3) = fst (detect_breaker_blocks (tail 20 c) s3')"
      by (rule detect_breaker_blocks_cong)
    then show ?thesis using Inr a r' False by (simp add: analyze_candles_long)
  qed
qed

lemma gaps_never_read:
  "map_sum id fst (analyze_candles c (s\<lparr>fair_value_gaps := gaps\<rparr>))
   = map_sum id fst (analyze_candles c s)"
  by (rule analyze_candles_reads_blocks_only) simp

text \<open>On a new instance a second call with the same candles returns what the first returned.\<close>

lemma new_instance_two_calls_agree:
  assumes first: "analyze_candles c new_ICTStrategies = Inr (signals1, self1)"
  shows "map_sum id fst (analyze_candles c self1) = Inr signals1"
proof (cases "length c < 50")
  case True
  then show ?thesis using first by (auto simp: analyze_candles_short)
next
  case False
  let ?d = "detect_order_blocks c new_ICTStrategies"
  let ?blocks = "order_blocks ?d"
  let ?n = "length ?blocks"
  let ?s2 = "detect_fair_value_gaps c ?d"
  let ?p = "candle_c (last (tail 20 c))"
  let ?first = "foldl (breaker_step ?p) ([], ?blocks) [?n - 10..<?n]"
  have rc: "\<not> length (tail 20 c) < 3" using False by (simp add: tail_def)
  obtain bos s3 where ms: "analyze_market_structure c ?s2 = Inr (bos, s3)"
    using first False by (auto simp: analyze_candles_long split: sum.splits)
  have b3: "order_blocks s3 = ?blocks"
    using analyze_market_structure_blocks [OF ms] by (simp add: detect_fair_value_gaps_blocks)
  have sig1: "signals1 = rank_and_filter_signals (bos @ fst ?first @ analyze_market_maker_model c)"
    and self1: "self1 = s3\<lparr>order_blocks := snd ?first\<rparr>"
    using first False ms b3 by (simp_all add: analyze_candles_long detect_breaker_blocks_scan [OF rc])
  let ?t2 = "detect_fair_value_gaps c (detect_order_blocks c self1)"
  have bd: "order_blocks (detect_order_blocks c self1) = snd ?first @ ?blocks"
    using detect_order_blocks_appends [of c self1] self1 by simp
  have bt: "order_blocks ?t2 = snd ?first @ ?blocks"
    using bd by (simp add: detect_fair_value_gaps_blocks)
  have len: "length (snd ?first) = ?n" by (simp add: breaker_fold_length)
  have keeps: "map ob_type (snd ?first) = map ob_type ?blocks"
    "map ob_high (snd ?first) = map ob_high ?blocks"
    "map ob_low (snd ?first) = map ob_low ?blocks"
    using breaker_fold_keeps [of ?p "([], ?blocks)" "[?n - 10..<?n]"] by simp_all
  have e: "(order_blocks ?t2 = []) = (order_blocks ?s2 = [])"
    using bt len by (auto simp: detect_fair_value_gaps_blocks)
  have mx: "py_max (map ob_high (filter (\<lambda>b. ob_type b = Bearish) (order_blocks ?t2)))
          = py_max (map ob_high (filter (\<lambda>b. ob_type b = Bearish) (order_blocks ?s2)))"
    using filter_map_by_projections [OF keeps(1) keeps(2), of Bearish]
    by (simp add: bd detect_fair_value_gaps_blocks py_max_twice)
  have mn: "py_min (map ob_low (filter (\<lambda>b. ob_type b = Bullish) (order_blocks ?t2)))
          = py_min (map ob_low (filter (\<lambda>b. ob_type b = Bullish) (order_blocks ?s2)))"
    using filter_map_by_projections [OF keeps(1) keeps(3), of Bullish]
    by (simp add: bd detect_fair_value_gaps_blocks py_min_twice)
  have "map_sum id fst (analyze_market_structure c ?t2)
        = map_sum id fst (analyze_market_structure c ?s2)"
    by (rule analyze_market_structure_cong [OF e mx mn])
  then obtain t3 where mt: "analyze_market_structure c ?t2 = Inr (bos, t3)"
    using ms by (cases "analyze_market_structure c ?t2") auto
  have b3': "order_blocks t3 = snd ?first @ ?blocks"
    using analyze_market_structure_blocks [OF mt] bt by simp
  have "fst (detect_breaker_blocks (tail 20 c) t3)
        = fst (foldl (breaker_step ?p) ([], snd ?first @ ?blocks) [2 * ?n - 10..<2 * ?n])"
    using b3' len by (simp add: detect_breaker_blocks_scan [OF rc] mult_2)
  also have "\<dots> = fst ?first" by (rule breaker_second_scan)
  finally have "fst (detect_breaker_blocks (tail 20 c) t3) = fst ?first" .
  then show ?thesis using False mt sig1 by (simp add: analyze_candles_long)
qed

text \<open>
  C10 as stated fails in what it gives as the cause. The fair value gaps an instance has
  accumulated are never read: whatever list of gaps the instance holds, a call returns
  the same signals. And the zones that a first call accumulates do not change a second
  call: on a new instance, whose whole state the first call has written, the second call
  with the same candles returns the list the first returned, for every candle list.
\<close>

theorem accumulated_zones_without_influence:
  "(\<forall>c s gaps. map_sum id fst (analyze_candles c (s\<lparr>fair_value_gaps := gaps\<rparr>))
                 = map_sum id fst (analyze_candles c s))
   \<and> (\<forall>c. case analyze_candles c new_ICTStrategies of
             Inl e \<Rightarrow> True
           | Inr (signals1, self1) \<Rightarrow> map_sum id fst (analyze_candles c self1) = Inr signals1)"
proof (intro conjI allI)
  fix c s gaps
  show "map_sum id fst (analyze_candles c (s\<lparr>fair_value_gaps := gaps\<rparr>))
        = map_sum id fst (analyze_candles c s)"
    by (rule gaps_never_read)
next
  fix c
  show "case analyze_candles c new_ICTStrategies of
          Inl e \<Rightarrow> True
        | Inr (signals1, self1) \<Rightarrow> map_sum id fst (analyze_candles c self1) = Inr signals1"
    using new_instance_two_calls_agree [of c]
    by (cases "analyze_candles c new_ICTStrategies") auto
qed

lemma selloff_then_rally_twice:
  "case analyze_candles selloff_candles new_ICTStrategies of
        Inl e \<Rightarrow> False
      | Inr (signals0, self0) \<Rightarrow>
         length (order_blocks self0) = 1 \<and> \<not> broken (order_blocks self0 ! 0)
         \<and> length (fair_value_gaps self0) = 2 \<and>
         (case analyze_candles rally_candles self0 of
            Inl e \<Rightarrow> False
          | Inr (signals1, self1) \<Rightarrow>
             map signal_type signals1 = [BULLISH_BREAKER, MM_BUY_MODEL, BOS_BULLISH]
             \<and> order_blocks self1
                 = [(order_blocks self0 ! 0)\<lparr>broken := True, breaker_confirmed := True\<rparr>]
             \<and> fair_value_gaps self1 = fair_value_gaps self0 \<and>
             (case analyze_candles rally_candles self1 of
                Inl e \<Rightarrow> False
              | Inr (signals2, self2) \<Rightarrow>
                  map signal_type signals2 = [MM_BUY_MODEL, BOS_BULLISH]))"
  by code_simp

text \<open>
  C10, as amended. There are a candle list and a detector instance, left by one earlier
  call on other candles with one unbroken order block and two fair value gaps, such that
  two successive calls of \<open>analyze_candles\<close> with that same candle list return different
  signal lists. The first of the two calls appends no order block and no gap; it sets
  \<open>broken\<close> and \<open>breaker_confirmed\<close> on the block the instance held, in place, and the
  breaker scan of the second call passes over it. So the output is not a function of the
  candle argument alone.
\<close>

theorem two_calls_differ:
  "\<exists>prior candles self0 signals0 self1 signals1 self2 signals2.
     analyze_candles prior new_ICTStrategies = Inr (signals0, self0)
     \<and> analyze_candles candles self0 = Inr (signals1, self1)
     \<and> analyze_candles candles self1 = Inr (signals2, self2)
     \<and> signals1 \<noteq> signals2
     \<and> length (order_blocks self0) = 1 \<and> \<not> broken (order_blocks self0 ! 0)
     \<and> length (fair_value_gaps self0) = 2
     \<and> order_blocks self1 = [(order_blocks self0 ! 0)\<lparr>broken := True, breaker_confirmed := True\<rparr>]
     \<and> fair_value_gaps self1 = fair_value_gaps self0"
proof -
  obtain signals0 self0 where c0:
    "analyze_candles selloff_candles new_ICTStrategies = Inr (signals0, self0)"
    using selloff_then_rally_twice
    by (cases "analyze_candles selloff_candles new_ICTStrategies") auto
  obtain signals1 self1 where c1: "analyze_candles rally_candles self0 = Inr (signals1, self1)"
    using selloff_then_rally_twice c0
    by (cases "analyze_candles rally_candles self0") auto
  obtain signals2 self2 where c2: "analyze_candles rally_candles self1 = Inr (signals2, self2)"
    using selloff_then_rally_twice c0 c1
    by (cases "analyze_candles rally_candles self1") auto
  have facts: "length (order_blocks self0) = 1" "\<not> broken (order_blocks self0 ! 0)"
    "length (fair_value_gaps self0) = 2"
    "order_blocks self1 = [(order_blocks self0 ! 0)\<lparr>broken := True, breaker_confirmed := True\<rparr>]"
    "fair_value_gaps self1 = fair_value_gaps self0"
    using selloff_then_rally_twice c0 c1 c2 by simp_all
  have "map signal_type signals1 \<noteq> map signal_type signals2"
    using selloff_then_rally_twice c0 c1 c2 by simp
  then have "signals1 \<noteq> signals2" by auto
  then show ?thesis using c0 c1 c2 facts by blast
qed

section \<open>Results on the signal engine\<close>

lemma kz_off_hours_example:
  "get_current_kill_zone 1700000000 =
     Inr \<lparr>zone_type = OFF_HOURS, is_active = False, time_until_next = Some 166,
          time_remaining = None, session = MARKET_CLOSE, optimal_for_entries = False,
          volatility_expected = ''low'',
          kz_rationale = off_hours_rationale 62000\<rparr>"
  by (simp add: get_current_kill_zone_def est_time_def KILL_ZONES_def time_def
      is_time_in_window_def create_kill_zone_info_def Let_def get_session_type_def
      get_next_kill_zone_def min_by_def minutes_between_def py_int_def)

text \<open>
  C1. The claim: a returned strength below 40 comes with the recommendation Neutral, also
  after the kill-zone adjustment. The override to Neutral is tested before that
  adjustment and not again: with two bullish timeframes of strength 35, no Phase-1 bonus
  and a success probability of 50, the strength is 54 and the recommendation Buy; at
  17:13 Eastern, off-hours, 15 is subtracted and the response is Buy with strength 39.
\<close>

theorem buy_below_forty:
  "calculate_final_signal sy (MS_BULLISH, 35) (MS_BULLISH, 35) (MS_NEUTRAL, 0) 0
     \<lparr>success_probability = 50, quality_rating = determine_quality_rating 50\<rparr> 1700000000
   = Inr \<lparr>symbol = sy, recommendation = BUY, response_strength = 39,
          breakdown = \<lparr>d1 = MS_NEUTRAL, h1 = MS_BULLISH, m15 = MS_BULLISH\<rparr>\<rparr>"
  by (simp add: calculate_final_signal_def Let_def kz_off_hours_example should_trade_signal_def
      py_int_def determine_quality_rating_def new_SignalResponse_def)

text \<open>
  C2. The claim: the combined value is clamped to \<open>[0, 100]\<close>. It is capped at 100, but
  bounded below only in the off-hours branch. With three neutral timeframes, no bonus and
  a success probability of 45.75, the combined value is \<open>-1.275\<close>, truncated to \<open>-1\<close>; at
  21:00 Eastern, in the Asian session, it is left as it is, and the construction of the
  response with strength \<open>-1\<close> raises ValidationError.
\<close>

theorem negative_strength_rejected:
  "calculate_final_signal sy (MS_NEUTRAL, 0) (MS_NEUTRAL, 0) (MS_NEUTRAL, 0) 0
     \<lparr>success_probability = 45.75, quality_rating = determine_quality_rating 45.75\<rparr> 1700013600
   = Inl ValidationError"
  by (simp add: calculate_final_signal_def Let_def kz_asian_example should_trade_signal_def
      py_int_def determine_quality_rating_def new_SignalResponse_def)

text \<open>
  What does hold of the strength: a response that is returned has it within \<open>[0, 100]\<close>,
  because the constructor of the response refuses any other.
\<close>

lemma new_SignalResponse_range:
  "new_SignalResponse a b c d = Inr r \<Longrightarrow> 0 \<le> response_strength r \<and> response_strength r \<le> 100"
  by (auto simp: new_SignalResponse_def split: if_splits)

lemma final_signal_strength_in_range:
  assumes "calculate_final_signal sy r15 r1h r1d bonus ai now = Inr response"
  shows "0 \<le> response_strength response \<and> response_strength response \<le> 100"
proof -
  have "\<exists>a b c d. new_SignalResponse a b c d = Inr response"
    using assms unfolding calculate_final_signal_def Let_def
    by (auto split: sum.splits)
  then show ?thesis using new_SignalResponse_range by blast
qed

text \<open>Without any candle the call ends in the AI enhancer.\<close>

lemma generate_signal_without_candles:
  "generate_signal sy [] [] [] bonus ai now new_SignalEngine = Inl KeyError"
  by (simp add: generate_signal_def new_SignalEngine_def analyze_candles_def
      smc_analyze_candles_def evaluate_timeframe_def)

lemma smc_hammer_last: "smc_analyze_candles hammer_last_candles new_SMCStrategies = Inl NameError"
  by code_simp

lemma ict_jump: "analyze_candles jump_candles new_ICTStrategies = Inl ValueError"
  by code_simp

lemma hammer_last_short: "length hammer_last_candles < 50 \<and> hammer_last_candles \<noteq> []"
  by code_simp

lemma jump_nonempty: "jump_candles \<noteq> []"
  by code_simp

text \<open>
  C3. The claim: \<open>generate_signal\<close> returns on every well-formed input. It does not. On
  thirty hourly candles whose last one has a long lower wick and closes above its open,
  the SMC inducement scan raises NameError; on fifty candles with a 3 percent rise in the
  last twenty and no fall, the ICT BOS check takes \<open>max\<close> of an empty list and raises
  ValueError. Neither is caught, whatever the enhancers return and whatever the time.
\<close>

theorem generate_signal_raises:
  "generate_signal sy [] hammer_last_candles [] bonus ai now new_SignalEngine = Inl NameError
   \<and> generate_signal sy [] jump_candles [] bonus ai now new_SignalEngine = Inl ValueError"
proof -
  have a: "analyze_candles hammer_last_candles new_ICTStrategies = Inr ([], new_ICTStrategies)"
    using hammer_last_short by (simp add: analyze_candles_def)
  show ?thesis
    using hammer_last_short jump_nonempty
    by (simp add: generate_signal_def new_SignalEngine_def smc_hammer_last ict_jump a)
qed

section \<open>Results on the SMC detector\<close>

lemma inducement_fold_result:
  "fold_err (inducement_step recent) ks rs = Inr rs' \<Longrightarrow> rs' = rs"
proof (induction ks arbitrary: rs)
  case Nil
  then show ?case by simp
next
  case (Cons k ks)
  then show ?case
    by (auto simp: inducement_step_def Let_def split: if_splits sum.splits)
qed

lemma detect_inducements_returns_nothing: "detect_inducements df = Inr rs \<Longrightarrow> rs = []"
  using inducement_fold_result [of "tail 5 df" "[2..<length (tail 5 df)]" "[]" rs]
  by (auto simp: detect_inducements_def Let_def split: if_splits)

lemma keep_unique_foldl_subset:
  "set (foldl (\<lambda>unique_signals signal.
              if ty signal \<notin> set (map ty unique_signals) \<and> length unique_signals < 3
              then unique_signals @ [signal] else unique_signals) acc xs) \<subseteq> set acc \<union> set xs"
proof (induction xs arbitrary: acc)
  case Nil
  show ?case by simp
next
  case (Cons a xs)
  let ?f = "\<lambda>unique_signals signal.
              if ty signal \<notin> set (map ty unique_signals) \<and> length unique_signals < 3
              then unique_signals @ [signal] else unique_signals"
  have "set (foldl ?f (?f acc a) xs) \<subseteq> set (?f acc a) \<union> set xs" by (rule Cons.IH)
  moreover have "set (?f acc a) \<subseteq> set acc \<union> {a}" by auto
  ultimately have "set (foldl ?f (?f acc a) xs) \<subseteq> set acc \<union> set (a # xs)" by auto
  then show ?case by simp
qed

lemma keep_unique_subset: "set (keep_unique ty xs) \<subseteq> set xs"
  using keep_unique_foldl_subset [of ty "[]" xs] by (simp add: keep_unique_def)

lemma smc_rank_subset: "set (smc_rank_and_filter_signals xs) \<subseteq> set xs"
  using keep_unique_subset [of smc_signal_type "sort_key (\<lambda>x. - (smc_strength x * smc_confidence x)) xs"]
  by (simp add: smc_rank_and_filter_signals_def)

lemma sweep_step_types:
  assumes "\<forall>r \<in> set (fst acc). smc_signal_type r \<in> {LIQUIDITY_SWEEP_BULLISH, LIQUIDITY_SWEEP_BEARISH}"
  shows "\<forall>r \<in> set (fst (sweep_step df p acc k)).
           smc_signal_type r \<in> {LIQUIDITY_SWEEP_BULLISH, LIQUIDITY_SWEEP_BEARISH}"
  using assms by (auto simp: sweep_step_def Let_def)

lemma sweep_fold_types:
  assumes "\<forall>r \<in> set (fst acc). smc_signal_type r \<in> {LIQUIDITY_SWEEP_BULLISH, LIQUIDITY_SWEEP_BEARISH}"
  shows "\<forall>r \<in> set (fst (foldl (sweep_step df p) acc ks)).
           smc_signal_type r \<in> {LIQUIDITY_SWEEP_BULLISH, LIQUIDITY_SWEEP_BEARISH}"
  using assms
proof (induction ks arbitrary: acc)
  case Nil
  then show ?case by simp
next
  case (Cons k ks)
  show ?case using Cons.IH [OF sweep_step_types [OF Cons.prems]] by simp
qed

lemma sweeps_types:
  "\<forall>r \<in> set (fst (detect_liquidity_sweeps df p self)).
     smc_signal_type r \<in> {LIQUIDITY_SWEEP_BULLISH, LIQUIDITY_SWEEP_BEARISH}"
  using sweep_fold_types [of "([], liquidity_pools self)" df p "[0..<length (liquidity_pools self)]"]
  by (simp add: detect_liquidity_sweeps_def Let_def)

lemma bpr_types:
  "\<forall>r \<in> set (fst (detect_bpr_zones df p self)). smc_signal_type r \<in> {BPR_BULLISH, BPR_BEARISH}"
  by (simp add: detect_bpr_zones_def Let_def)

lemma mitigation_types:
  "\<forall>r \<in> set (fst (detect_mitigation_setups p self)).
     smc_signal_type r \<in> {MITIGATION_BULLISH, MITIGATION_BEARISH}"
  by (auto simp: detect_mitigation_setups_def Let_def mitigation_result_def)

text \<open>No list that \<open>smc_analyze_candles\<close> returns holds an inducement signal.\<close>

lemma no_inducement_signal_ever:
  assumes "smc_analyze_candles candles self = Inr (signals, self')"
  shows "\<forall>s \<in> set signals. smc_signal_type s \<noteq> INDUCEMENT_BULLISH
                              \<and> smc_signal_type s \<noteq> INDUCEMENT_BEARISH"
proof (cases "length candles < 30")
  case True
  then show ?thesis using assms by (auto simp: smc_analyze_candles_def)
next
  case False
  obtain rs where "detect_inducements candles = Inr rs"
    using assms False
    by (cases "detect_inducements candles")
       (auto simp: smc_analyze_candles_def Let_def split: prod.splits)
  then have ind: "detect_inducements candles = Inr []"
    using detect_inducements_returns_nothing by blast
  let ?p = "candle_c (last candles)"
  let ?s1 = "detect_liquidity_pools candles self"
  let ?sw = "detect_liquidity_sweeps candles ?p ?s1"
  let ?bp = "detect_bpr_zones candles ?p (snd ?sw)"
  let ?s4 = "update_mitigation_tracking candles (snd ?bp)"
  let ?mi = "detect_mitigation_setups ?p ?s4"
  let ?all = "fst ?sw @ [] @ fst ?bp @ fst ?mi"
  have eq: "smc_analyze_candles candles self = Inr (smc_rank_and_filter_signals ?all, snd ?mi)"
    using False ind by (simp add: smc_analyze_candles_def Let_def split: prod.splits)
  have "\<forall>s \<in> set ?all. smc_signal_type s \<noteq> INDUCEMENT_BULLISH
                          \<and> smc_signal_type s \<noteq> INDUCEMENT_BEARISH"
    using sweeps_types [of candles ?p ?s1] bpr_types [of candles ?p "snd ?sw"]
      mitigation_types [of ?p ?s4] by auto
  then have "\<forall>s \<in> set (smc_rank_and_filter_signals ?all).
               smc_signal_type s \<noteq> INDUCEMENT_BULLISH \<and> smc_signal_type s \<noteq> INDUCEMENT_BEARISH"
    using smc_rank_subset [of ?all] by blast
  then show ?thesis using eq assms by simp
qed

lemma hammer_last_facts:
  "30 \<le> length hammer_last_candles
   \<and> last hammer_last_candles = hammer_candle 29
   \<and> tail 5 hammer_last_candles ! 4 = hammer_candle 29
   \<and> detect_inducements hammer_last_candles = Inl NameError"
  by code_simp

text \<open>
  C7. The claim: a candle among the last five with a wick of at least twice its body and a
  close on the other side makes \<open>analyze_candles\<close> return an inducement signal of strength
  75 and confidence 70. The code builds that signal and loses it: on thirty candles whose
  last one has a lower wick of 2 against a body of 0.5 and closes above its open, the call
  raises NameError, on any instance. By \<open>no_inducement_signal_ever\<close> no call returns an
  inducement signal at all.
\<close>

theorem inducement_signal_lost:
  "30 \<le> length hammer_last_candles
   \<and> tail 5 hammer_last_candles ! 4 = hammer_candle 29
   \<and> candle_o (hammer_candle 29) - candle_l (hammer_candle 29)
        \<ge> 2 * \<bar>candle_c (hammer_candle 29) - candle_o (hammer_candle 29)\<bar>
   \<and> candle_c (hammer_candle 29) > candle_o (hammer_candle 29)
   \<and> smc_analyze_candles hammer_last_candles self = Inl NameError"
  using hammer_last_facts
  by (simp add: smc_analyze_candles_def Let_def hammer_candle_def split: prod.splits)

lemma hammer_early_facts:
  "30 \<le> length hammer_early_candles
   \<and> tail 3 hammer_early_candles = [flat_candle 100 27, flat_candle 100 28, flat_candle 100 29]
   \<and> hammer_early_candles ! 25 = hammer_candle 25
   \<and> tail 5 hammer_early_candles ! 0 = hammer_candle 25"
  by code_simp

lemma smc_hammer_early:
  "map_sum id fst (smc_analyze_candles hammer_early_candles new_SMCStrategies) = Inr []"
  by code_simp

text \<open>
  The scan reads the last three candles only: a hammer five candles from the end is not
  seen, and the call returns the empty list.
\<close>

lemma early_hammer_gives_no_signal:
  "30 \<le> length hammer_early_candles
   \<and> tail 5 hammer_early_candles ! 0 = hammer_candle 25
   \<and> map_sum id fst (smc_analyze_candles hammer_early_candles new_SMCStrategies) = Inr []"
  using hammer_early_facts smc_hammer_early by simp

end
